theory Spec2Isabelle
  imports Main "HOL-Library.Word"
begin

unbundle bit_operations_syntax

section \<open>The HLS source of rtsp-simple-server (internal/core/hls\_source.go)\<close>

text \<open>
  One attempt (\<open>hlsSourceInstance\<close>) downloads a playlist, keeps a queue of segment
  URIs, and for each segment demultiplexes the transport stream, binds the video PID from
  the first Program Map Table, paces the video payloads against the wall clock, extracts
  SPS/PPS to initialize the track and passes the remaining NAL units to the RTP encoder.

  The attempt's fields are a record that every method takes and returns. Each method
  returns Go's \<open>error\<close> result as an \<open>error option\<close> (\<open>None\<close> is \<open>nil\<close>) next to the
  updated attempt, because the Go code leaves its mutations in place when it returns an
  error and the deferred function of \<open>run\<close> reads them afterwards.

  Libraries and the outside world (net/url, path, net/http, m3u8, astits, the H.264 and
  RTP helpers, the router, the clock and the cancellation context) are the fields of an
  environment record, so every theorem holds for whatever they return. The calls that
  wait for the outside world (an HTTP request, a clock read, a \<open>select\<close> on the
  context) are numbered by the counter \<open>tick\<close> of the attempt, and the environment
  answers the \<open>n\<close>-th of them. What the attempt does to the outside world is appended
  to its \<open>trace\<close>. Log lines are not traced.
\<close>

subsection \<open>Data\<close>

type_synonym bytes = "8 word list"
type_synonym duration = int \<comment> \<open>\<open>time.Duration\<close>: nanoseconds\<close>
type_synonym instant = int \<comment> \<open>\<open>time.Time\<close>: nanoseconds on the wall clock\<close>

datatype error =
    ErrLib string \<comment> \<open>an error value returned by a library call\<close>
  | ErrNoMorePackets \<comment> \<open>\<open>astits.ErrNoMorePackets\<close>\<close>
  | ErrTerminated \<comment> \<open>"terminated"\<close>
  | ErrNoVariants \<comment> \<open>"no variants found"\<close>
  | ErrInvalidPlaylist \<comment> \<open>"invalid playlist"\<close>
  | ErrBadStatusCode int \<comment> \<open>"bad status code: %d"\<close>
  | ErrMultipleTracks \<comment> \<open>"multiple video/audio tracks are not supported"\<close>
  | ErrPTSMissing \<comment> \<open>"PTS is missing"\<close>
  | ErrEncoding error \<comment> \<open>"ERR while encoding H264: %v"\<close>
  | ErrPanic \<comment> \<open>a run-time panic: nil dereference or index out of range\<close>

text \<open>\<open>url.URL\<close>; \<open>User\<close> is a pointer, \<open>None\<close> when nil.\<close>

record url =
  Scheme :: string
  Opaque :: string
  User :: "string option"
  Host :: string
  Path :: string
  RawPath :: string
  ForceQuery :: bool
  RawQuery :: string
  Fragment :: string
  RawFragment :: string

text \<open>\<open>(*url.URL).IsAbs\<close> of net/url: the scheme is not empty.\<close>

definition IsAbs :: "url \<Rightarrow> bool" where
  "IsAbs u = (Scheme u \<noteq> [])"

record variant =
  Variant_URI :: string
  Bandwidth :: "32 word"

record segment =
  Segment_URI :: string

text \<open>
  What \<open>m3u8.DecodeFrom\<close> returns: the two playlist types of the library; \<open>OtherPlaylist\<close>
  is any other dynamic type, the \<open>default\<close> branch of the type switch. The entries of
  \<open>Segments\<close> are pointers, \<open>None\<close> when nil.
\<close>

datatype playlist =
    MediaPlaylist "segment option list"
  | MasterPlaylist "variant list"
  | OtherPlaylist

record response =
  StatusCode :: int
  Body :: bytes

datatype stream_type = StreamTypeH264Video | StreamTypeAACAudio | StreamTypeOther

record elementary_stream =
  StreamType :: stream_type
  ElementaryPID :: "16 word"

record pmt_data =
  ElementaryStreams :: "elementary_stream list"

record clock_reference =
  Base :: "64 word"

record pes_optional_header =
  PTS :: "clock_reference option"

record pes_data =
  Data :: bytes
  OptionalHeader :: "pes_optional_header option"

text \<open>\<open>astits.Data\<close>: one demultiplexed unit; \<open>PMT\<close> and \<open>PES\<close> are pointers.\<close>

record data =
  PID :: "16 word"
  PMT :: "pmt_data option"
  PES :: "pes_data option"

text \<open>
  A demuxer is what its successive \<open>NextData\<close> calls return; past the end it returns
  \<open>ErrNoMorePackets\<close>.
\<close>

type_synonym demuxer = "(error + data) list"

datatype track = Track nat
datatype encoder = Encoder nat
datatype stream = StreamHandle nat

record pathSourceStaticSetReadyRes =
  Stream :: "stream option"
  Err :: "error option"

record timing =
  videoInitialized :: bool
  videoStartPTS :: duration
  videoStartRTC :: instant

text \<open>
  The trace. \<open>EvPacing\<close> records one pacing decision (lines 332-333) with the reference
  pair it was computed from: start PTS, start instant, the payload's PTS and the elapsed
  time. \<open>EvOnFrame\<close> is the hand-off of one packet to the router; the calls that would
  make it are commented out in the source (lines 399-401, 441-442), so no function below
  emits it.
\<close>

datatype event =
    EvHTTPGet url
  | EvSetReady "track list" pathSourceStaticSetReadyRes
  | EvSetNotReady
  | EvPrintPTS duration
  | EvPacing duration instant duration duration
  | EvWait duration
  | EvEncode "bytes list" duration
  | EvPrintTODO "bytes list"
  | EvIdleWait
  | EvOnFrame nat bytes

record hlsSourceInstance =
  s_ur :: string \<comment> \<open>\<open>si.s.ur\<close>, the configured root URL\<close>
  ur :: "url option"
  queue :: "string list"
  pmtDownloaded :: bool
  videoPID :: "16 word option"
  videoSPS :: "bytes option"
  videoPPS :: "bytes option"
  videoTrack :: "track option"
  videoEncoder :: "encoder option"
  audioPID :: "16 word option"
  stream :: "stream option"
  trace :: "event list"
  tick :: nat

record env =
  url_Parse :: "string \<Rightarrow> error + url"
  gopath_Dir :: "string \<Rightarrow> string"
  gopath_Join :: "string \<Rightarrow> string \<Rightarrow> string"
  http_Do :: "nat \<Rightarrow> url \<Rightarrow> error + response"
  m3u8_DecodeFrom :: "bytes \<Rightarrow> error + playlist"
  astits_NewDemuxer :: "bytes \<Rightarrow> demuxer"
  h264_DecodeAnnexB :: "bytes \<Rightarrow> error + bytes list"
  aac_DecodeADTS :: "bytes \<Rightarrow> error + bytes list"
  NewTrackH264 :: "nat \<Rightarrow> bytes \<Rightarrow> bytes \<Rightarrow> error + track"
  Encode :: "bytes list \<Rightarrow> duration \<Rightarrow> error + bytes list"
  OnSourceStaticSetReady :: "track list \<Rightarrow> pathSourceStaticSetReadyRes"
  time_Now :: "nat \<Rightarrow> instant"
  ctx_Done :: "nat \<Rightarrow> bool"

text \<open>
  Modelled from the spec: the NAL unit type codes of package internal/h264 for the three
  types the classification names (SPS, PPS, access-unit delimiter), with the values ITU-T
  H.264 assigns to them.
\<close>

definition NALUTypeSPS :: "8 word" where
  "NALUTypeSPS = 7"

definition NALUTypePPS :: "8 word" where
  "NALUTypePPS = 8"

definition NALUTypeAccessUnitDelimiter :: "8 word" where
  "NALUTypeAccessUnitDelimiter = 9"

subsection \<open>Small helpers\<close>

definition emit :: "event \<Rightarrow> hlsSourceInstance \<Rightarrow> hlsSourceInstance" where
  "emit e si = si\<lparr>trace := trace si @ [e]\<rparr>"

definition next_tick :: "hlsSourceInstance \<Rightarrow> hlsSourceInstance" where
  "next_tick si = si\<lparr>tick := Suc (tick si)\<rparr>"

text \<open>A byte slice that may be nil, read as a slice.\<close>

definition slice_of :: "bytes option \<Rightarrow> bytes" where
  "slice_of b = (case b of None \<Rightarrow> [] | Some x \<Rightarrow> x)"

text \<open>Conversion to \<open>int64\<close> (wrap-around) and Go's integer division, which truncates.\<close>

definition int64 :: "int \<Rightarrow> int" where
  "int64 x = (x + 2 ^ 63) mod 2 ^ 64 - 2 ^ 63"

definition go_quot :: "int \<Rightarrow> int \<Rightarrow> int" where
  "go_quot a b = sgn a * sgn b * (\<bar>a\<bar> div \<bar>b\<bar>)"

text \<open>
  Line 323: \<open>time.Duration(float64(Base)) * time.Second / 90000\<close>. The conversion
  through \<open>float64\<close> is exact below \<open>2^53\<close> (a PTS has 33 bits) and is taken as the
  identity.
\<close>

definition pts_of :: "64 word \<Rightarrow> duration" where
  "pts_of b = go_quot (int64 (sint b * 1000000000)) 90000"

text \<open>\<open>time.Since\<close>: the difference of two instants, saturating at the bounds of \<open>int64\<close>.\<close>

definition time_Since :: "instant \<Rightarrow> instant \<Rightarrow> duration" where
  "time_Since now start = max (- (2 ^ 63)) (min (2 ^ 63 - 1) (now - start))"

definition newHLSSourceInstance :: "string \<Rightarrow> hlsSourceInstance" where
  "newHLSSourceInstance root =
     \<lparr>s_ur = root, ur = None, queue = [], pmtDownloaded = False, videoPID = None,
      videoSPS = None, videoPPS = None, videoTrack = None, videoEncoder = None,
      audioPID = None, stream = None, trace = [], tick = 0\<rparr>"

subsection \<open>hlsSourceURLAbsolute (lines 29-45)\<close>

text \<open>The base is a pointer; it is dereferenced only when the reference is relative.\<close>

definition hlsSourceURLAbsolute :: "env \<Rightarrow> url option \<Rightarrow> string \<Rightarrow> error + url" where
  "hlsSourceURLAbsolute env base relative =
     (case url_Parse env relative of
        Inl err \<Rightarrow> Inl err
      | Inr u \<Rightarrow>
          if \<not> IsAbs u then
            (case base of
               None \<Rightarrow> Inl ErrPanic
             | Some b \<Rightarrow>
                 Inr \<lparr>Scheme = Scheme b, Opaque = [], User = User b, Host = Host b,
                      Path = gopath_Join env (gopath_Dir env (Path b)) relative,
                      RawPath = [], ForceQuery = False, RawQuery = [], Fragment = [],
                      RawFragment = []\<rparr>)
          else Inr u)"

subsection \<open>Playlists and the segment queue (lines 116-230)\<close>

text \<open>
  One GET under the attempt's context. An error of \<open>http.NewRequestWithContext\<close> and
  one of \<open>http.DefaultClient.Do\<close> are both returned as they are, so \<open>http_Do\<close> stands
  for the two calls.
\<close>

definition http_GET ::
  "env \<Rightarrow> hlsSourceInstance \<Rightarrow> url \<Rightarrow> (error + response) \<times> hlsSourceInstance" where
  "http_GET env si u = (http_Do env (tick si) u, emit (EvHTTPGet u) (next_tick si))"

definition playlistDownloadSingle ::
  "env \<Rightarrow> hlsSourceInstance \<Rightarrow> (error + playlist) \<times> hlsSourceInstance" where
  "playlistDownloadSingle env si =
     (case ur si of
        None \<Rightarrow> (Inl ErrPanic, si)
      | Some u \<Rightarrow>
          (case http_GET env si u of
             (Inl err, si1) \<Rightarrow> (Inl err, si1)
           | (Inr res, si1) \<Rightarrow>
               if StatusCode res \<noteq> 200 then (Inl (ErrBadStatusCode (StatusCode res)), si1)
               else (case m3u8_DecodeFrom env (Body res) of
                       Inl err \<Rightarrow> (Inl err, si1)
                     | Inr pl \<Rightarrow> (Inr pl, si1))))"

definition playlistDownloadMedia ::
  "env \<Rightarrow> hlsSourceInstance \<Rightarrow> (error + segment option list) \<times> hlsSourceInstance" where
  "playlistDownloadMedia env si =
     (case playlistDownloadSingle env si of
        (Inl err, si1) \<Rightarrow> (Inl err, si1)
      | (Inr pl, si1) \<Rightarrow>
          (case pl of
             MediaPlaylist segs \<Rightarrow> (Inr segs, si1)
           | _ \<Rightarrow> (Inl ErrInvalidPlaylist, si1)))"

text \<open>The loop of lines 167-173: the variant chosen so far and the variants left.\<close>

fun chooseVariant :: "variant option \<Rightarrow> variant list \<Rightarrow> variant option" where
  "chooseVariant chosenVariant [] = chosenVariant"
| "chooseVariant chosenVariant (v # vs) =
     chooseVariant
       (case chosenVariant of
          None \<Rightarrow> Some v
        | Some c \<Rightarrow> if Bandwidth v > Bandwidth c then Some v else Some c)
       vs"

definition playlistDownloadMaster ::
  "env \<Rightarrow> hlsSourceInstance \<Rightarrow> (error + segment option list) \<times> hlsSourceInstance" where
  "playlistDownloadMaster env si =
     (case url_Parse env (s_ur si) of
        Inl err \<Rightarrow> (Inl err, si\<lparr>ur := None\<rparr>)
      | Inr root \<Rightarrow>
          (case playlistDownloadSingle env (si\<lparr>ur := Some root\<rparr>) of
             (Inl err, si1) \<Rightarrow> (Inl err, si1)
           | (Inr pl, si1) \<Rightarrow>
               (case pl of
                  MediaPlaylist segs \<Rightarrow> (Inr segs, si1)
                | MasterPlaylist variants \<Rightarrow>
                    (case chooseVariant None variants of
                       None \<Rightarrow> (Inl ErrNoVariants, si1)
                     | Some chosenVariant \<Rightarrow>
                         (case hlsSourceURLAbsolute env (ur si1) (Variant_URI chosenVariant) of
                            Inl err \<Rightarrow> (Inl err, si1)
                          | Inr u \<Rightarrow> playlistDownloadMedia env (si1\<lparr>ur := Some u\<rparr>)))
                | OtherPlaylist \<Rightarrow> (Inl ErrInvalidPlaylist, si1))))"

fun queueContainsURI :: "string list \<Rightarrow> string \<Rightarrow> bool" where
  "queueContainsURI [] u = False"
| "queueContainsURI (q # qs) u = (if q = u then True else queueContainsURI qs u)"

text \<open>The loop of lines 127-135; it stops at the first nil entry.\<close>

fun queueAppend :: "string list \<Rightarrow> segment option list \<Rightarrow> string list" where
  "queueAppend q [] = q"
| "queueAppend q (None # segs) = q"
| "queueAppend q (Some seg # segs) =
     queueAppend (if \<not> queueContainsURI q (Segment_URI seg) then q @ [Segment_URI seg] else q) segs"

definition queueFill :: "env \<Rightarrow> hlsSourceInstance \<Rightarrow> error option \<times> hlsSourceInstance" where
  "queueFill env si =
     (case (if ur si = None then playlistDownloadMaster env si
            else playlistDownloadMedia env si) of
        (Inl err, si1) \<Rightarrow> (Some err, si1)
      | (Inr segs, si1) \<Rightarrow> (None, si1\<lparr>queue := queueAppend (queue si1) segs\<rparr>))"

subsection \<open>initVideoTrack (lines 414-438)\<close>

text \<open>
  \<open>err\<close> is the variable of line 417: it holds the error of \<open>NewTrackH264\<close>, and line
  429 returns it when the router's response carries an error.
\<close>

definition initVideoTrack :: "env \<Rightarrow> hlsSourceInstance \<Rightarrow> error option \<times> hlsSourceInstance" where
  "initVideoTrack env si =
     (let (t, err) =
            (case NewTrackH264 env 96 (slice_of (videoSPS si)) (slice_of (videoPPS si)) of
               Inl e \<Rightarrow> (None, Some e)
             | Inr t \<Rightarrow> (Some t, None));
          si1 = si\<lparr>videoTrack := t\<rparr>
      in if err \<noteq> None then (err, si1)
         else
           (let tracks = (case t of None \<Rightarrow> [] | Some tr \<Rightarrow> [tr]);
                si2 = si1\<lparr>videoEncoder := Some (Encoder 96)\<rparr>;
                res = OnSourceStaticSetReady env tracks;
                si3 = emit (EvSetReady tracks res) si2
            in if Err res \<noteq> None then (err, si3)
               else (None, si3\<lparr>stream := Stream res\<rparr>)))"

subsection \<open>segmentProcess (lines 232-412)\<close>

text \<open>How a loop body ends: the function returns, or the loop is left with a value.\<close>

datatype 'a exit = Return "error option" | Break 'a

text \<open>The loop over the elementary streams of the PMT (lines 272-290).\<close>

fun pmt_streams ::
  "hlsSourceInstance \<Rightarrow> elementary_stream list \<Rightarrow> error option \<times> hlsSourceInstance" where
  "pmt_streams si [] = (None, si)"
| "pmt_streams si (e # es) =
     (case StreamType e of
        StreamTypeH264Video \<Rightarrow>
          if videoPID si \<noteq> None then (Some ErrMultipleTracks, si)
          else pmt_streams (si\<lparr>videoPID := Some (ElementaryPID e)\<rparr>) es
      | _ \<Rightarrow> pmt_streams si es)"

text \<open>The loop that looks for the PMT (lines 258-292); it leaves the rest of the demuxer.\<close>

fun pmt_loop :: "hlsSourceInstance \<Rightarrow> demuxer \<Rightarrow> demuxer exit \<times> hlsSourceInstance" where
  "pmt_loop si [] = (Return None, si)"
| "pmt_loop si (Inl err # dem) =
     (if err = ErrNoMorePackets then (Return None, si) else (Return (Some err), si))"
| "pmt_loop si (Inr d # dem) =
     (case PMT d of
        None \<Rightarrow> pmt_loop si dem
      | Some p \<Rightarrow>
          (case pmt_streams (si\<lparr>pmtDownloaded := True\<rparr>) (ElementaryStreams p) of
             (Some err, si1) \<Rightarrow> (Return (Some err), si1)
           | (None, si1) \<Rightarrow> (Break dem, si1)))"

definition get_PMT :: "hlsSourceInstance \<Rightarrow> demuxer \<Rightarrow> demuxer exit \<times> hlsSourceInstance" where
  "get_PMT si dem = (if \<not> pmtDownloaded si then pmt_loop si dem else (Break dem, si))"

text \<open>
  Lines 323-339: the timing reference and the pacing wait of one video payload. The result
  \<open>Some e\<close> means that \<open>segmentProcess\<close> returns \<open>e\<close>.
\<close>

definition pacing ::
  "env \<Rightarrow> timing \<Rightarrow> hlsSourceInstance \<Rightarrow> duration \<Rightarrow> error option \<times> timing \<times> hlsSourceInstance" where
  "pacing env tm si pts =
     (let (tm1, si1) =
            (if \<not> videoInitialized tm
             then (\<lparr>videoInitialized = True, videoStartPTS = pts,
                    videoStartRTC = time_Now env (tick si)\<rparr>, next_tick si)
             else (tm, si));
          si2 = emit (EvPrintPTS pts) si1;
          now = time_Since (time_Now env (tick si2)) (videoStartRTC tm1);
          si3 = emit (EvPacing (videoStartPTS tm1) (videoStartRTC tm1) pts now) (next_tick si2)
      in if pts - videoStartPTS tm1 > now then
           (if ctx_Done env (tick si3) then (Some ErrTerminated, tm1, next_tick si3)
            else (None, tm1, emit (EvWait (pts - videoStartPTS tm1 - now)) (next_tick si3)))
         else (None, tm1, si3))"

text \<open>
  The body of the loop over the NAL units (lines 343-387): the attempt and the output
  buffer after one unit, or the error \<open>segmentProcess\<close> returns.
\<close>

definition nalu_step ::
  "env \<Rightarrow> hlsSourceInstance \<Rightarrow> bytes list \<Rightarrow> bytes
     \<Rightarrow> error option \<times> bytes list \<times> hlsSourceInstance" where
  "nalu_step env si outNALUs nalu =
     (case nalu of
        [] \<Rightarrow> (Some ErrPanic, outNALUs, si)
      | b # _ \<Rightarrow>
          (let typ = b AND 0x1F in
           if typ = NALUTypeSPS then
             (if videoSPS si = None then
                (let si1 = si\<lparr>videoSPS := Some nalu\<rparr> in
                 if videoPPS si1 \<noteq> None then
                   (case initVideoTrack env si1 of
                      (Some err, si2) \<Rightarrow> (Some err, outNALUs, si2)
                    | (None, si2) \<Rightarrow> (None, outNALUs, si2))
                 else (None, outNALUs, si1))
              else (None, outNALUs, si))
           else if typ = NALUTypePPS then
             (if videoPPS si = None then
                (let si1 = si\<lparr>videoPPS := Some nalu\<rparr> in
                 if videoSPS si1 \<noteq> None then
                   (case initVideoTrack env si1 of
                      (Some err, si2) \<Rightarrow> (Some err, outNALUs, si2)
                    | (None, si2) \<Rightarrow> (None, outNALUs, si2))
                 else (None, outNALUs, si1))
              else (None, outNALUs, si))
           else if typ = NALUTypeAccessUnitDelimiter then (None, outNALUs, si)
           else if videoEncoder si = None then (None, outNALUs, si)
           else (None, outNALUs @ [nalu], si)))"

fun nalus_loop ::
  "env \<Rightarrow> hlsSourceInstance \<Rightarrow> bytes list \<Rightarrow> bytes list
     \<Rightarrow> error option \<times> bytes list \<times> hlsSourceInstance" where
  "nalus_loop env si outNALUs [] = (None, outNALUs, si)"
| "nalus_loop env si outNALUs (nalu # nalus) =
     (case nalu_step env si outNALUs nalu of
        (Some err, out1, si1) \<Rightarrow> (Some err, out1, si1)
      | (None, out1, si1) \<Rightarrow> nalus_loop env si1 out1 nalus)"

text \<open>
  Lines 341-401: classification of the payload's NAL units, then the encoder. Where the
  source would hand the packets to the router it prints them.
\<close>

definition forward ::
  "env \<Rightarrow> hlsSourceInstance \<Rightarrow> duration \<Rightarrow> bytes list \<Rightarrow> error option \<times> hlsSourceInstance" where
  "forward env si pts nalus =
     (case nalus_loop env si [] nalus of
        (Some err, outNALUs, si1) \<Rightarrow> (Some err, si1)
      | (None, outNALUs, si1) \<Rightarrow>
          if length outNALUs = 0 then (None, si1)
          else
            (case videoEncoder si1 of
               None \<Rightarrow> (Some ErrPanic, si1)
             | Some enc \<Rightarrow>
                 (case Encode env outNALUs pts of
                    Inl err \<Rightarrow> (Some (ErrEncoding err), emit (EvEncode outNALUs pts) si1)
                  | Inr pkts \<Rightarrow>
                      (None, emit (EvPrintTODO pkts) (emit (EvEncode outNALUs pts) si1)))))"

text \<open>Lines 313-401: one payload of the video PID.\<close>

definition video_payload ::
  "env \<Rightarrow> timing \<Rightarrow> hlsSourceInstance \<Rightarrow> pes_data
     \<Rightarrow> error option \<times> timing \<times> hlsSourceInstance" where
  "video_payload env tm si pes =
     (case h264_DecodeAnnexB env (Data pes) of
        Inl err \<Rightarrow> (Some err, tm, si)
      | Inr nalus \<Rightarrow>
          (case (case OptionalHeader pes of None \<Rightarrow> None | Some h \<Rightarrow> PTS h) of
             None \<Rightarrow> (Some ErrPTSMissing, tm, si)
           | Some cr \<Rightarrow>
               (case pacing env tm si (pts_of (Base cr)) of
                  (Some err, tm1, si1) \<Rightarrow> (Some err, tm1, si1)
                | (None, tm1, si1) \<Rightarrow>
                    (case forward env si1 (pts_of (Base cr)) nalus of
                       (r, si2) \<Rightarrow> (r, tm1, si2)))))"

text \<open>The body of the loop over the demuxed data (lines 308-410), after \<open>NextData\<close>.\<close>

definition data_step ::
  "env \<Rightarrow> timing \<Rightarrow> hlsSourceInstance \<Rightarrow> data \<Rightarrow> error option \<times> timing \<times> hlsSourceInstance" where
  "data_step env tm si d =
     (case PES d of
        None \<Rightarrow> (None, tm, si)
      | Some pes \<Rightarrow>
          if videoPID si = Some (PID d) then video_payload env tm si pes
          else if audioPID si = Some (PID d) then
            (case aac_DecodeADTS env (Data pes) of
               Inl err \<Rightarrow> (Some err, tm, si)
             | Inr pkts \<Rightarrow> (None, tm, emit (EvPrintTODO pkts) si))
          else (None, tm, si))"

fun pes_loop ::
  "env \<Rightarrow> timing \<Rightarrow> hlsSourceInstance \<Rightarrow> demuxer \<Rightarrow> error option \<times> timing \<times> hlsSourceInstance" where
  "pes_loop env tm si [] = (None, tm, si)"
| "pes_loop env tm si (Inl err # dem) =
     (if err = ErrNoMorePackets then (None, tm, si) else (Some err, tm, si))"
| "pes_loop env tm si (Inr d # dem) =
     (case data_step env tm si d of
        (Some err, tm1, si1) \<Rightarrow> (Some err, tm1, si1)
      | (None, tm1, si1) \<Rightarrow> pes_loop env tm1 si1 dem)"

text \<open>Lines 295-297: the timing variables are locals of \<open>segmentProcess\<close>.\<close>

definition timing0 :: timing where
  "timing0 = \<lparr>videoInitialized = False, videoStartPTS = 0, videoStartRTC = 0\<rparr>"

definition segmentProcess ::
  "env \<Rightarrow> hlsSourceInstance \<Rightarrow> string \<Rightarrow> error option \<times> hlsSourceInstance" where
  "segmentProcess env si segmentURI =
     (case hlsSourceURLAbsolute env (ur si) segmentURI of
        Inl err \<Rightarrow> (Some err, si)
      | Inr u \<Rightarrow>
          (case http_GET env si u of
             (Inl err, si1) \<Rightarrow> (Some err, si1)
           | (Inr res, si1) \<Rightarrow>
               if StatusCode res \<noteq> 200 then (Some (ErrBadStatusCode (StatusCode res)), si1)
               else
                 (case get_PMT si1 (astits_NewDemuxer env (Body res)) of
                    (Return r, si2) \<Rightarrow> (r, si2)
                  | (Break dem, si2) \<Rightarrow>
                      (case pes_loop env timing0 si2 dem of
                         (r, tm, si3) \<Rightarrow> (r, si3)))))"

subsection \<open>run (lines 80-114)\<close>

text \<open>
  The loop of \<open>run\<close> ends only by returning an error, so it is given fuel: \<open>None\<close> means
  that the loop is still running when the fuel is used up.
\<close>

fun run_loop :: "nat \<Rightarrow> env \<Rightarrow> hlsSourceInstance \<Rightarrow> (error \<times> hlsSourceInstance) option" where
  "run_loop 0 env si = None"
| "run_loop (Suc n) env si =
     (case (if length (queue si) \<le> 1 then queueFill env si else (None, si)) of
        (Some err, si1) \<Rightarrow> Some (err, si1)
      | (None, si1) \<Rightarrow>
          (case queue si1 of
             [] \<Rightarrow>
               if ctx_Done env (tick si1) then Some (ErrTerminated, next_tick si1)
               else run_loop n env (emit EvIdleWait (next_tick si1))
           | el # rest \<Rightarrow>
               (case segmentProcess env (si1\<lparr>queue := rest\<rparr>) el of
                  (Some err, si2) \<Rightarrow> Some (err, si2)
                | (None, si2) \<Rightarrow> run_loop n env si2)))"

text \<open>The deferred function of lines 81-85 runs when the loop has returned.\<close>

definition run_deferred :: "hlsSourceInstance \<Rightarrow> hlsSourceInstance" where
  "run_deferred si = (if stream si \<noteq> None then emit EvSetNotReady si else si)"

definition run :: "nat \<Rightarrow> env \<Rightarrow> hlsSourceInstance \<Rightarrow> (error \<times> hlsSourceInstance) option" where
  "run fuel env si =
     (case run_loop fuel env si of
        None \<Rightarrow> None
      | Some (err, si1) \<Rightarrow> Some (err, run_deferred si1))"

subsection \<open>Reading a trace\<close>

fun is_SetReady :: "event \<Rightarrow> bool" where
  "is_SetReady (EvSetReady tracks res) = True"
| "is_SetReady e = False"

fun is_SetNotReady :: "event \<Rightarrow> bool" where
  "is_SetNotReady EvSetNotReady = True"
| "is_SetNotReady e = False"

fun is_Encode :: "event \<Rightarrow> bool" where
  "is_Encode (EvEncode nalus pts) = True"
| "is_Encode e = False"

fun is_OnFrame :: "event \<Rightarrow> bool" where
  "is_OnFrame (EvOnFrame trackID payload) = True"
| "is_OnFrame e = False"

text \<open>A readiness call that the router granted: no error, and a publish handle.\<close>

fun ready_granted :: "event \<Rightarrow> bool" where
  "ready_granted (EvSetReady tracks res) = (Err res = None \<and> Stream res \<noteq> None)"
| "ready_granted e = False"

text \<open>Events that touch neither the router nor the encoder nor the pacing.\<close>

fun is_fetch_or_idle :: "event \<Rightarrow> bool" where
  "is_fetch_or_idle (EvHTTPGet u) = True"
| "is_fetch_or_idle EvIdleWait = True"
| "is_fetch_or_idle e = False"

text \<open>The pacing decisions of a trace: reference PTS, reference instant, payload PTS.\<close>

fun pacing_of :: "event list \<Rightarrow> (duration \<times> instant \<times> duration) list" where
  "pacing_of [] = []"
| "pacing_of (EvPacing startPTS startRTC pts now # evs) = (startPTS, startRTC, pts) # pacing_of evs"
| "pacing_of (e # evs) = pacing_of evs"

text \<open>
  One reference for a run of pacing decisions: the first decision takes its own payload's
  PTS as the reference PTS, and the later ones use the same pair.
\<close>

fun single_reference :: "(duration \<times> instant \<times> duration) list \<Rightarrow> bool" where
  "single_reference [] = True"
| "single_reference ((startPTS, startRTC, pts) # ps) =
     (startPTS = pts \<and> list_all (\<lambda>(a, b, p). a = startPTS \<and> b = startRTC) ps)"

text \<open>Pacing decisions that were all computed from the timing variables \<open>tm\<close>.\<close>

definition uses_reference :: "timing \<Rightarrow> (duration \<times> instant \<times> duration) list \<Rightarrow> bool" where
  "uses_reference tm ps = list_all (\<lambda>(a, b, p). a = videoStartPTS tm \<and> b = videoStartRTC tm) ps"

text \<open>The PIDs of the H.264 entries of a PMT, in order.\<close>

definition h264_pids :: "elementary_stream list \<Rightarrow> 16 word list" where
  "h264_pids es = map ElementaryPID (filter (\<lambda>e. StreamType e = StreamTypeH264Video) es)"

text \<open>A demuxed unit that \<open>NextData\<close> returns without error and that carries no PMT.\<close>

fun no_PMT :: "error + data \<Rightarrow> bool" where
  "no_PMT (Inl err) = False"
| "no_PMT (Inr d) = (PMT d = None)"

text \<open>The state an attempt is in once a PMT without video has been processed.\<close>

definition no_video :: "hlsSourceInstance \<Rightarrow> bool" where
  "no_video si = (pmtDownloaded si \<and> videoPID si = None \<and> audioPID si = None)"

text \<open>
  The type of a NAL unit as line 344 reads it, and the units the classification may put
  into the output buffer: those of any type but SPS, PPS and access-unit delimiter.
\<close>

definition has_type :: "bytes \<Rightarrow> 8 word \<Rightarrow> bool" where
  "has_type nalu t = (case nalu of [] \<Rightarrow> False | b # bs \<Rightarrow> b AND 0x1F = t)"

definition forwardable :: "bytes \<Rightarrow> bool" where
  "forwardable nalu =
     (nalu \<noteq> [] \<and> \<not> has_type nalu NALUTypeSPS \<and> \<not> has_type nalu NALUTypePPS
      \<and> \<not> has_type nalu NALUTypeAccessUnitDelimiter)"

text \<open>What the video path of \<open>segmentProcess\<close> may append to the trace.\<close>

fun is_video :: "event \<Rightarrow> bool" where
  "is_video (EvSetReady tracks res) = True"
| "is_video (EvPrintPTS pts) = True"
| "is_video (EvPacing startPTS startRTC pts now) = True"
| "is_video (EvWait d) = True"
| "is_video (EvEncode nalus pts) = True"
| "is_video (EvPrintTODO pkts) = True"
| "is_video e = False"

text \<open>The second attempt has the trace of the first and, after it, events that satisfy \<open>P\<close>.\<close>

definition appended :: "(event \<Rightarrow> bool) \<Rightarrow> hlsSourceInstance \<Rightarrow> hlsSourceInstance \<Rightarrow> bool" where
  "appended P si si' = (\<exists>new. trace si' = trace si @ new \<and> list_all P new)"

text \<open>The PMT flag and the PID bindings are the same in both attempts.\<close>

definition same_binding :: "hlsSourceInstance \<Rightarrow> hlsSourceInstance \<Rightarrow> bool" where
  "same_binding si si' =
     (pmtDownloaded si' = pmtDownloaded si \<and> videoPID si' = videoPID si
      \<and> audioPID si' = audioPID si)"

text \<open>
  The invariant of an attempt that links the publish handle to the router calls: no
  "not ready" call yet; a handle is held exactly when a readiness call was granted; at
  most one readiness call; none before both SPS and PPS are recorded.
\<close>

definition live_inv :: "hlsSourceInstance \<Rightarrow> bool" where
  "live_inv si =
     (filter is_SetNotReady (trace si) = []
      \<and> (stream si \<noteq> None \<longleftrightarrow> list_ex ready_granted (trace si))
      \<and> length (filter is_SetReady (trace si)) \<le> 1
      \<and> (videoSPS si = None \<or> videoPPS si = None \<longrightarrow>
           filter is_SetReady (trace si) = [] \<and> stream si = None))"

text \<open>
  A step that only fetches or idles: it may change the playlist URL, the queue and the
  tick, and appends requests and idle waits to the trace.
\<close>

definition fetch_step :: "hlsSourceInstance \<Rightarrow> hlsSourceInstance \<Rightarrow> bool" where
  "fetch_step si si' =
     (\<exists>u q n new. si' = si\<lparr>ur := u, queue := q, trace := trace si @ new, tick := n\<rparr>
        \<and> list_all is_fetch_or_idle new)"

text \<open>
  The error the demuxer itself makes the loop over the data return: the first error of
  \<open>NextData\<close>, where running out of packets is not an error.
\<close>

fun demux_error :: "demuxer \<Rightarrow> error option" where
  "demux_error [] = None"
| "demux_error (Inl err # dem) = (if err = ErrNoMorePackets then None else Some err)"
| "demux_error (Inr d # dem) = demux_error dem"

subsection \<open>A test bench\<close>

text \<open>
  A small origin to run the attempt against. The root \<open>master.m3u8\<close> is a master
  playlist of two variants, the better of which lists the one segment \<open>seg0.ts\<close>; the root
  \<open>live.m3u8\<close> is a media playlist of \<open>seg1.ts\<close> and \<open>seg2.ts\<close>; the root
  \<open>radio.m3u8\<close> is a media playlist of \<open>audio.ts\<close>, whose PMT has no video; the root
  \<open>dual.m3u8\<close> is a media playlist of \<open>dual.ts\<close>, whose PMT, after one payload, lists two
  H.264 streams. Requests fail from
  the tick \<open>cancel\<close> on, and the context is done from then on, as after \<open>Close\<close>. The
  library functions are tables that give, on the few inputs used here, what the
  libraries give.
\<close>

definition ex_sps :: bytes where
  "ex_sps = [0x67, 1]"

definition ex_pps :: bytes where
  "ex_pps = [0x68, 2]"

definition ex_idr :: bytes where
  "ex_idr = [0x65, 3]"

definition ex_aud :: bytes where
  "ex_aud = [0x09, 0xF0]"

definition ex_slice :: bytes where
  "ex_slice = [0x41, 4]"

definition ex_sps2 :: bytes where
  "ex_sps2 = [0x67, 9]"

definition ex_url :: "string \<Rightarrow> string \<Rightarrow> string \<Rightarrow> url" where
  "ex_url s h p =
     \<lparr>Scheme = s, Opaque = [], User = None, Host = h, Path = p, RawPath = [],
      ForceQuery = False, RawQuery = [], Fragment = [], RawFragment = []\<rparr>"

definition ex_Parse :: "string \<Rightarrow> error + url" where
  "ex_Parse s =
     (if s = ''http://h/a/master.m3u8'' then Inr (ex_url ''http'' ''h'' ''/a/master.m3u8'')
      else if s = ''http://h/a/live.m3u8'' then Inr (ex_url ''http'' ''h'' ''/a/live.m3u8'')
      else if s = ''http://h/a/radio.m3u8'' then Inr (ex_url ''http'' ''h'' ''/a/radio.m3u8'')
      else if s = ''http://h/a/dual.m3u8'' then Inr (ex_url ''http'' ''h'' ''/a/dual.m3u8'')
      else if s = ''http://cdn/seg.ts'' then Inr (ex_url ''http'' ''cdn'' ''/seg.ts'')
      else if s = ''hi.m3u8'' \<or> s = ''lo.m3u8'' \<or> s = ''seg0.ts'' \<or> s = ''seg1.ts''
              \<or> s = ''seg2.ts'' \<or> s = ''audio.ts'' \<or> s = ''dual.ts''
      then Inr (ex_url [] [] s)
      else Inl (ErrLib ''parse''))"

definition ex_Dir :: "string \<Rightarrow> string" where
  "ex_Dir p =
     (if p = ''/a/master.m3u8'' \<or> p = ''/a/live.m3u8'' \<or> p = ''/a/hi.m3u8''
         \<or> p = ''/a/radio.m3u8'' \<or> p = ''/a/dual.m3u8''
      then ''/a''
      else ''.'')"

definition ex_Join :: "string \<Rightarrow> string \<Rightarrow> string" where
  "ex_Join d f = d @ ''/'' @ f"

definition ex_pes :: "8 word \<Rightarrow> 64 word \<Rightarrow> error + data" where
  "ex_pes k b =
     Inr \<lparr>PID = 256, PMT = None,
          PES = Some \<lparr>Data = [k], OptionalHeader = Some \<lparr>PTS = Some \<lparr>Base = b\<rparr>\<rparr>\<rparr>\<rparr>"

definition ex_pmt :: "error + data" where
  "ex_pmt =
     Inr \<lparr>PID = 4096,
          PMT = Some \<lparr>ElementaryStreams =
                   [\<lparr>StreamType = StreamTypeH264Video, ElementaryPID = 256\<rparr>,
                    \<lparr>StreamType = StreamTypeAACAudio, ElementaryPID = 257\<rparr>]\<rparr>,
          PES = None\<rparr>"

definition ex_pmt_audio :: "error + data" where
  "ex_pmt_audio =
     Inr \<lparr>PID = 4096,
          PMT = Some \<lparr>ElementaryStreams =
                   [\<lparr>StreamType = StreamTypeAACAudio, ElementaryPID = 257\<rparr>]\<rparr>,
          PES = None\<rparr>"

definition ex_pmt_dual :: "error + data" where
  "ex_pmt_dual =
     Inr \<lparr>PID = 4096,
          PMT = Some \<lparr>ElementaryStreams =
                   [\<lparr>StreamType = StreamTypeH264Video, ElementaryPID = 256\<rparr>,
                    \<lparr>StreamType = StreamTypeH264Video, ElementaryPID = 258\<rparr>]\<rparr>,
          PES = None\<rparr>"

definition ex_http :: "nat \<Rightarrow> nat \<Rightarrow> url \<Rightarrow> error + response" where
  "ex_http cancel n u =
     (if cancel \<le> n then Inl (ErrLib ''context canceled'')
      else if Path u = ''/a/master.m3u8'' then Inr \<lparr>StatusCode = 200, Body = [0]\<rparr>
      else if Path u = ''/a/hi.m3u8'' then Inr \<lparr>StatusCode = 200, Body = [1]\<rparr>
      else if Path u = ''/a/live.m3u8'' then Inr \<lparr>StatusCode = 200, Body = [2]\<rparr>
      else if Path u = ''/a/seg0.ts'' then Inr \<lparr>StatusCode = 200, Body = [3]\<rparr>
      else if Path u = ''/a/seg1.ts'' then Inr \<lparr>StatusCode = 200, Body = [4]\<rparr>
      else if Path u = ''/a/seg2.ts'' then Inr \<lparr>StatusCode = 200, Body = [5]\<rparr>
      else if Path u = ''/a/radio.m3u8'' then Inr \<lparr>StatusCode = 200, Body = [6]\<rparr>
      else if Path u = ''/a/audio.ts'' then Inr \<lparr>StatusCode = 200, Body = [7]\<rparr>
      else if Path u = ''/a/dual.m3u8'' then Inr \<lparr>StatusCode = 200, Body = [8]\<rparr>
      else if Path u = ''/a/dual.ts'' then Inr \<lparr>StatusCode = 200, Body = [9]\<rparr>
      else Inr \<lparr>StatusCode = 404, Body = []\<rparr>)"

definition ex_DecodeFrom :: "bytes \<Rightarrow> error + playlist" where
  "ex_DecodeFrom b =
     (if b = [0] then
        Inr (MasterPlaylist [\<lparr>Variant_URI = ''lo.m3u8'', Bandwidth = 500\<rparr>,
                             \<lparr>Variant_URI = ''hi.m3u8'', Bandwidth = 1500\<rparr>])
      else if b = [1] then Inr (MediaPlaylist [Some \<lparr>Segment_URI = ''seg0.ts''\<rparr>, None])
      else if b = [2] then
        Inr (MediaPlaylist [Some \<lparr>Segment_URI = ''seg1.ts''\<rparr>,
                            Some \<lparr>Segment_URI = ''seg2.ts''\<rparr>, None])
      else if b = [6] then Inr (MediaPlaylist [Some \<lparr>Segment_URI = ''audio.ts''\<rparr>, None])
      else if b = [8] then Inr (MediaPlaylist [Some \<lparr>Segment_URI = ''dual.ts''\<rparr>, None])
      else Inl (ErrLib ''m3u8''))"

definition ex_NewDemuxer :: "bytes \<Rightarrow> demuxer" where
  "ex_NewDemuxer b =
     (if b = [3] then [ex_pmt, ex_pes 1 0]
      else if b = [4] then [ex_pmt, ex_pes 2 0, ex_pes 3 90000]
      else if b = [5] then [ex_pmt, ex_pes 4 180000]
      else if b = [7] then [ex_pmt_audio, ex_pes 1 0]
      else if b = [9] then [ex_pes 1 0, ex_pmt_dual, ex_pes 1 0]
      else [])"

definition ex_DecodeAnnexB :: "bytes \<Rightarrow> error + bytes list" where
  "ex_DecodeAnnexB b =
     (if b = [1] then Inr [ex_sps, ex_pps, ex_idr]
      else if b = [2] then Inr [ex_aud, ex_sps, ex_pps, ex_idr]
      else if b = [3] then Inr [ex_aud]
      else if b = [4] then Inr [ex_aud, ex_sps2, ex_slice]
      else Inl (ErrLib ''annexb''))"

definition ex_granted :: pathSourceStaticSetReadyRes where
  "ex_granted = \<lparr>Stream = Some (StreamHandle 1), Err = None\<rparr>"

definition ex_rejected :: pathSourceStaticSetReadyRes where
  "ex_rejected = \<lparr>Stream = None, Err = Some (ErrLib ''rejected'')\<rparr>"

definition ex_env :: "nat \<Rightarrow> pathSourceStaticSetReadyRes \<Rightarrow> env" where
  "ex_env cancel res =
     \<lparr>url_Parse = ex_Parse, gopath_Dir = ex_Dir, gopath_Join = ex_Join,
      http_Do = ex_http cancel, m3u8_DecodeFrom = ex_DecodeFrom,
      astits_NewDemuxer = ex_NewDemuxer, h264_DecodeAnnexB = ex_DecodeAnnexB,
      aac_DecodeADTS = (\<lambda>b. Inl (ErrLib ''adts'')),
      NewTrackH264 = (\<lambda>pt sps pps. Inr (Track 0)),
      Encode = (\<lambda>nalus pts. Inr nalus),
      OnSourceStaticSetReady = (\<lambda>tracks. res),
      time_Now = (\<lambda>n. 1000 * int n),
      ctx_Done = (\<lambda>n. cancel \<le> n)\<rparr>"

text \<open>What a finished attempt shows: its error and the events of its trace.\<close>

definition outcome :: "(error \<times> hlsSourceInstance) option \<Rightarrow> (error \<times> event list) option" where
  "outcome r = (case r of None \<Rightarrow> None | Some (err, si) \<Rightarrow> Some (err, trace si))"

section \<open>Properties\<close>

subsection \<open>Field lemmas\<close>


lemma emit_fields [simp]:
  "trace (emit e si) = trace si @ [e]"
  "tick (emit e si) = tick si"
  "stream (emit e si) = stream si"
  "s_ur (emit e si) = s_ur si"
  "ur (emit e si) = ur si"
  "queue (emit e si) = queue si"
  "pmtDownloaded (emit e si) = pmtDownloaded si"
  "videoPID (emit e si) = videoPID si"
  "videoSPS (emit e si) = videoSPS si"
  "videoPPS (emit e si) = videoPPS si"
  "videoTrack (emit e si) = videoTrack si"
  "videoEncoder (emit e si) = videoEncoder si"
  "audioPID (emit e si) = audioPID si"
  by (simp_all add: emit_def)

lemma next_tick_fields [simp]:
  "trace (next_tick si) = trace si"
  "tick (next_tick si) = Suc (tick si)"
  "stream (next_tick si) = stream si"
  "s_ur (next_tick si) = s_ur si"
  "ur (next_tick si) = ur si"
  "queue (next_tick si) = queue si"
  "pmtDownloaded (next_tick si) = pmtDownloaded si"
  "videoPID (next_tick si) = videoPID si"
  "videoSPS (next_tick si) = videoSPS si"
  "videoPPS (next_tick si) = videoPPS si"
  "videoTrack (next_tick si) = videoTrack si"
  "videoEncoder (next_tick si) = videoEncoder si"
  "audioPID (next_tick si) = audioPID si"
  by (simp_all add: next_tick_def)

subsection \<open>Variant selection (lines 165-177)\<close>

lemma chooseVariant_Some:
  "\<exists>v. chooseVariant (Some c) vs = Some v \<and> Bandwidth c \<le> Bandwidth v
       \<and> (\<forall>w \<in> set vs. Bandwidth w \<le> Bandwidth v)
       \<and> (v = c \<or> (\<exists>i < length vs. vs ! i = v \<and> Bandwidth c < Bandwidth v
                      \<and> (\<forall>j < i. Bandwidth (vs ! j) < Bandwidth v)))"
proof (induction vs arbitrary: c)
  case Nil
  show ?case by simp
next
  case (Cons x xs)
  show ?case
  proof (cases "Bandwidth c < Bandwidth x")
    case True
    from Cons.IH [of x] obtain v where v:
      "chooseVariant (Some x) xs = Some v" "Bandwidth x \<le> Bandwidth v"
      "\<forall>w \<in> set xs. Bandwidth w \<le> Bandwidth v"
      "v = x \<or> (\<exists>i < length xs. xs ! i = v \<and> Bandwidth x < Bandwidth v
                  \<and> (\<forall>j < i. Bandwidth (xs ! j) < Bandwidth v))"
      by blast
    from v(4) have "\<exists>i < length (x # xs). (x # xs) ! i = v \<and> Bandwidth c < Bandwidth v
        \<and> (\<forall>j < i. Bandwidth ((x # xs) ! j) < Bandwidth v)"
    proof
      assume "v = x"
      with True have "0 < length (x # xs) \<and> (x # xs) ! 0 = v \<and> Bandwidth c < Bandwidth v
          \<and> (\<forall>j < 0. Bandwidth ((x # xs) ! j) < Bandwidth v)"
        by simp
      then show ?thesis by blast
    next
      assume "\<exists>i < length xs. xs ! i = v \<and> Bandwidth x < Bandwidth v
                  \<and> (\<forall>j < i. Bandwidth (xs ! j) < Bandwidth v)"
      then obtain i where i: "i < length xs" "xs ! i = v" "Bandwidth x < Bandwidth v"
        "\<forall>j < i. Bandwidth (xs ! j) < Bandwidth v"
        by blast
      have "\<forall>j < Suc i. Bandwidth ((x # xs) ! j) < Bandwidth v"
        using i(3,4) by (auto simp: nth_Cons split: nat.splits)
      moreover have "Bandwidth c < Bandwidth v"
        using True i(3) by simp
      ultimately have "Suc i < length (x # xs) \<and> (x # xs) ! Suc i = v
          \<and> Bandwidth c < Bandwidth v \<and> (\<forall>j < Suc i. Bandwidth ((x # xs) ! j) < Bandwidth v)"
        using i(1,2) by simp
      then show ?thesis by blast
    qed
    with v True show ?thesis by auto
  next
    case False
    from Cons.IH [of c] obtain v where v:
      "chooseVariant (Some c) xs = Some v" "Bandwidth c \<le> Bandwidth v"
      "\<forall>w \<in> set xs. Bandwidth w \<le> Bandwidth v"
      "v = c \<or> (\<exists>i < length xs. xs ! i = v \<and> Bandwidth c < Bandwidth v
                  \<and> (\<forall>j < i. Bandwidth (xs ! j) < Bandwidth v))"
      by blast
    have xv: "Bandwidth x \<le> Bandwidth v"
      using False v(2) by simp
    from v(4) have "v = c \<or> (\<exists>i < length (x # xs). (x # xs) ! i = v \<and> Bandwidth c < Bandwidth v
        \<and> (\<forall>j < i. Bandwidth ((x # xs) ! j) < Bandwidth v))"
    proof
      assume "v = c"
      then show ?thesis by simp
    next
      assume "\<exists>i < length xs. xs ! i = v \<and> Bandwidth c < Bandwidth v
                  \<and> (\<forall>j < i. Bandwidth (xs ! j) < Bandwidth v)"
      then obtain i where i: "i < length xs" "xs ! i = v" "Bandwidth c < Bandwidth v"
        "\<forall>j < i. Bandwidth (xs ! j) < Bandwidth v"
        by blast
      have "Bandwidth x < Bandwidth v"
        using False i(3) by simp
      then have "\<forall>j < Suc i. Bandwidth ((x # xs) ! j) < Bandwidth v"
        using i(4) by (auto simp: nth_Cons split: nat.splits)
      then have "Suc i < length (x # xs) \<and> (x # xs) ! Suc i = v
          \<and> Bandwidth c < Bandwidth v \<and> (\<forall>j < Suc i. Bandwidth ((x # xs) ! j) < Bandwidth v)"
        using i(1,2,3) by simp
      then show ?thesis by blast
    qed
    with v xv False show ?thesis by auto
  qed
qed

lemma chooseVariant_first_max:
  assumes "chooseVariant None vs = Some v"
  shows "\<exists>i < length vs. vs ! i = v \<and> (\<forall>j < length vs. Bandwidth (vs ! j) \<le> Bandwidth v)
           \<and> (\<forall>j < i. Bandwidth (vs ! j) < Bandwidth v)"
proof (cases vs)
  case Nil
  with assms show ?thesis by simp
next
  case (Cons x xs)
  from chooseVariant_Some [of x xs] obtain w where w:
    "chooseVariant (Some x) xs = Some w" "Bandwidth x \<le> Bandwidth w"
    "\<forall>y \<in> set xs. Bandwidth y \<le> Bandwidth w"
    "w = x \<or> (\<exists>i < length xs. xs ! i = w \<and> Bandwidth x < Bandwidth w
                  \<and> (\<forall>j < i. Bandwidth (xs ! j) < Bandwidth w))"
    by blast
  from assms Cons w(1) have vw: "w = v" by simp
  have all: "\<forall>j < length vs. Bandwidth (vs ! j) \<le> Bandwidth v"
    using w(2,3) vw Cons by (auto simp: nth_Cons split: nat.splits)
  from w(4) show ?thesis
  proof
    assume "w = x"
    with vw Cons all have "0 < length vs \<and> vs ! 0 = v
        \<and> (\<forall>j < length vs. Bandwidth (vs ! j) \<le> Bandwidth v)
        \<and> (\<forall>j < 0. Bandwidth (vs ! j) < Bandwidth v)"
      by simp
    then show ?thesis by blast
  next
    assume "\<exists>i < length xs. xs ! i = w \<and> Bandwidth x < Bandwidth w
                  \<and> (\<forall>j < i. Bandwidth (xs ! j) < Bandwidth w)"
    then obtain i where i: "i < length xs" "xs ! i = w" "Bandwidth x < Bandwidth w"
      "\<forall>j < i. Bandwidth (xs ! j) < Bandwidth w"
      by blast
    have "\<forall>j < Suc i. Bandwidth (vs ! j) < Bandwidth v"
      using i(3,4) vw Cons by (auto simp: nth_Cons split: nat.splits)
    with i(1,2) vw Cons all have "Suc i < length vs \<and> vs ! Suc i = v
        \<and> (\<forall>j < length vs. Bandwidth (vs ! j) \<le> Bandwidth v)
        \<and> (\<forall>j < Suc i. Bandwidth (vs ! j) < Bandwidth v)"
      by simp
    then show ?thesis by blast
  qed
qed

lemma chooseVariant_None_iff: "chooseVariant None vs = None \<longleftrightarrow> vs = []"
proof (cases vs)
  case Nil
  then show ?thesis by simp
next
  case (Cons x xs)
  with chooseVariant_Some [of x xs] show ?thesis by auto
qed

lemma playlistDownloadMaster_no_variants:
  assumes "url_Parse env (s_ur si) = Inr root"
    and "http_Do env (tick si) root = Inr res"
    and "StatusCode res = 200"
    and "m3u8_DecodeFrom env (Body res) = Inr (MasterPlaylist [])"
  shows "fst (playlistDownloadMaster env si) = Inl ErrNoVariants"
  using assms
  by (simp add: playlistDownloadMaster_def playlistDownloadSingle_def http_GET_def)

lemma playlistDownloadMaster_descends:
  assumes "url_Parse env (s_ur si) = Inr root"
    and "http_Do env (tick si) root = Inr res"
    and "StatusCode res = 200"
    and "m3u8_DecodeFrom env (Body res) = Inr (MasterPlaylist vs)"
    and "chooseVariant None vs = Some v"
    and "hlsSourceURLAbsolute env (Some root) (Variant_URI v) = Inr u"
  shows "playlistDownloadMaster env si =
           playlistDownloadMedia env
             ((emit (EvHTTPGet root) (next_tick (si\<lparr>ur := Some root\<rparr>)))\<lparr>ur := Some u\<rparr>)"
  using assms
  by (simp add: playlistDownloadMaster_def playlistDownloadSingle_def http_GET_def)

text \<open>
  C8. From a master playlist the variant chosen is the first one of greatest bandwidth:
  no variant has a greater bandwidth and every earlier one has a strictly smaller one, so
  on equal bandwidths the earlier variant is kept; for the bandwidths 500, 1500, 1500, 200
  it is the first of the two 1500 entries. The media playlist then fetched is the one at
  the chosen variant's URI, and a master playlist without variants makes
  \<open>playlistDownloadMaster\<close> fail with "no variants found".
\<close>

theorem variant_selection:
  "(chooseVariant None vs = None \<longleftrightarrow> vs = []) \<and>
   (chooseVariant None vs = Some v \<longrightarrow>
      (\<exists>i < length vs. vs ! i = v \<and> (\<forall>j < length vs. Bandwidth (vs ! j) \<le> Bandwidth v)
         \<and> (\<forall>j < i. Bandwidth (vs ! j) < Bandwidth v))) \<and>
   chooseVariant None
     [\<lparr>Variant_URI = ''a'', Bandwidth = 500\<rparr>, \<lparr>Variant_URI = ''b'', Bandwidth = 1500\<rparr>,
      \<lparr>Variant_URI = ''c'', Bandwidth = 1500\<rparr>, \<lparr>Variant_URI = ''d'', Bandwidth = 200\<rparr>]
     = Some \<lparr>Variant_URI = ''b'', Bandwidth = 1500\<rparr> \<and>
   (url_Parse env (s_ur si) = Inr root \<and> http_Do env (tick si) root = Inr res
      \<and> StatusCode res = 200 \<and> m3u8_DecodeFrom env (Body res) = Inr (MasterPlaylist vs) \<longrightarrow>
      (vs = [] \<longrightarrow> fst (playlistDownloadMaster env si) = Inl ErrNoVariants) \<and>
      (chooseVariant None vs = Some v
         \<and> hlsSourceURLAbsolute env (Some root) (Variant_URI v) = Inr u \<longrightarrow>
       playlistDownloadMaster env si =
         playlistDownloadMedia env
           ((emit (EvHTTPGet root) (next_tick (si\<lparr>ur := Some root\<rparr>)))\<lparr>ur := Some u\<rparr>)))"
proof -
  have "chooseVariant None
     [\<lparr>Variant_URI = ''a'', Bandwidth = 500\<rparr>, \<lparr>Variant_URI = ''b'', Bandwidth = 1500\<rparr>,
      \<lparr>Variant_URI = ''c'', Bandwidth = 1500\<rparr>, \<lparr>Variant_URI = ''d'', Bandwidth = 200\<rparr>]
     = Some \<lparr>Variant_URI = ''b'', Bandwidth = 1500\<rparr>"
    by simp
  then show ?thesis
    using chooseVariant_None_iff [of vs] chooseVariant_first_max [of vs v]
      playlistDownloadMaster_no_variants [of env si root res]
      playlistDownloadMaster_descends [of env si root res vs v u]
    by blast
qed

theorem variant_selection_witness:
  "chooseVariant None
     [\<lparr>Variant_URI = ''lo.m3u8'', Bandwidth = 500\<rparr>, \<lparr>Variant_URI = ''hi.m3u8'', Bandwidth = 1500\<rparr>]
     = Some \<lparr>Variant_URI = ''hi.m3u8'', Bandwidth = 1500\<rparr> \<and>
   url_Parse (ex_env 9 ex_granted) (s_ur (newHLSSourceInstance ''http://h/a/master.m3u8''))
     = Inr (ex_url ''http'' ''h'' ''/a/master.m3u8'') \<and>
   hlsSourceURLAbsolute (ex_env 9 ex_granted) (Some (ex_url ''http'' ''h'' ''/a/master.m3u8''))
     ''hi.m3u8'' = Inr (ex_url ''http'' ''h'' ''/a/hi.m3u8'') \<and>
   playlistDownloadMaster (ex_env 9 ex_granted) (newHLSSourceInstance ''http://h/a/master.m3u8'') =
     playlistDownloadMedia (ex_env 9 ex_granted)
       ((emit (EvHTTPGet (ex_url ''http'' ''h'' ''/a/master.m3u8''))
          (next_tick ((newHLSSourceInstance ''http://h/a/master.m3u8'')
             \<lparr>ur := Some (ex_url ''http'' ''h'' ''/a/master.m3u8'')\<rparr>)))
        \<lparr>ur := Some (ex_url ''http'' ''h'' ''/a/hi.m3u8'')\<rparr>)"
proof -
  let ?vs = "[\<lparr>Variant_URI = ''lo.m3u8'', Bandwidth = 500\<rparr>,
              \<lparr>Variant_URI = ''hi.m3u8'', Bandwidth = 1500 :: 32 word\<rparr>]"
  let ?v = "\<lparr>Variant_URI = ''hi.m3u8'', Bandwidth = 1500 :: 32 word\<rparr>"
  let ?root = "ex_url ''http'' ''h'' ''/a/master.m3u8''"
  let ?si = "newHLSSourceInstance ''http://h/a/master.m3u8''"
  have c: "chooseVariant None ?vs = Some ?v"
    by simp
  have p: "url_Parse (ex_env 9 ex_granted) (s_ur ?si) = Inr ?root"
    by (simp add: ex_env_def ex_Parse_def newHLSSourceInstance_def)
  have h: "http_Do (ex_env 9 ex_granted) (tick ?si) ?root = Inr \<lparr>StatusCode = 200, Body = [0]\<rparr>"
    by (simp add: ex_env_def ex_http_def newHLSSourceInstance_def ex_url_def)
  have d: "m3u8_DecodeFrom (ex_env 9 ex_granted) (Body \<lparr>StatusCode = 200, Body = [0]\<rparr>)
             = Inr (MasterPlaylist ?vs)"
    by (simp add: ex_env_def ex_DecodeFrom_def)
  have a: "hlsSourceURLAbsolute (ex_env 9 ex_granted) (Some ?root) (Variant_URI ?v)
             = Inr (ex_url ''http'' ''h'' ''/a/hi.m3u8'')"
    by (simp add: hlsSourceURLAbsolute_def ex_env_def ex_Parse_def ex_url_def IsAbs_def
        ex_Dir_def ex_Join_def)
  from variant_selection [of ?vs ?v "ex_env 9 ex_granted" ?si ?root
      "\<lparr>StatusCode = 200, Body = [0]\<rparr>" "ex_url ''http'' ''h'' ''/a/hi.m3u8''"] c p h d a
  show ?thesis
    by simp
qed

subsection \<open>Traces that grow\<close>

lemma appended_refl [simp]: "appended P si si"
  by (simp add: appended_def)

lemma appended_trans: "appended P si si1 \<Longrightarrow> appended P si1 si2 \<Longrightarrow> appended P si si2"
  by (auto simp: appended_def)

lemma appended_mono: "appended P si si' \<Longrightarrow> (\<And>e. P e \<Longrightarrow> Q e) \<Longrightarrow> appended Q si si'"
  by (auto simp: appended_def list_all_iff)

lemma appended_emit: "P e \<Longrightarrow> appended P si si' \<Longrightarrow> appended P si (emit e si')"
  by (auto simp: appended_def)

lemma appended_next_tick: "appended P si si' \<Longrightarrow> appended P si (next_tick si')"
  by (auto simp: appended_def)

lemma appended_filter:
  "appended P si si' \<Longrightarrow> (\<And>e. P e \<Longrightarrow> \<not> Q e) \<Longrightarrow> filter Q (trace si') = filter Q (trace si)"
  by (auto simp: appended_def list_all_iff)

lemma pacing_of_append: "pacing_of (xs @ ys) = pacing_of xs @ pacing_of ys"
  by (induction xs rule: pacing_of.induct) simp_all

lemma pacing_of_none: "list_all (\<lambda>e. \<forall>a b p n. e \<noteq> EvPacing a b p n) evs \<Longrightarrow> pacing_of evs = []"
  by (induction evs rule: pacing_of.induct) simp_all

lemma appended_pacing_of:
  assumes "appended P si si'" and "\<And>e a b p n. P e \<Longrightarrow> e \<noteq> EvPacing a b p n"
  shows "pacing_of (trace si') = pacing_of (trace si)"
proof -
  from assms(1) obtain new where new: "trace si' = trace si @ new" "list_all P new"
    by (auto simp: appended_def)
  from new(2) assms(2) have "list_all (\<lambda>e. \<forall>a b p n. e \<noteq> EvPacing a b p n) new"
    by (auto simp: list_all_iff)
  then have "pacing_of new = []"
    by (rule pacing_of_none)
  with new(1) show ?thesis
    by (simp add: pacing_of_append)
qed

subsection \<open>initVideoTrack and the loop over the NAL units\<close>

lemma initVideoTrack_appended:
  "initVideoTrack env si = (r, si') \<Longrightarrow> appended is_SetReady si si'"
  by (auto simp: initVideoTrack_def appended_def Let_def split: sum.splits if_splits)

lemma initVideoTrack_binding:
  "initVideoTrack env si = (r, si') \<Longrightarrow> same_binding si si'"
  by (auto simp: initVideoTrack_def same_binding_def Let_def split: sum.splits if_splits)

lemma nalu_step_appended:
  "nalu_step env si out nalu = (r, out', si') \<Longrightarrow> appended is_SetReady si si'"
  by (auto simp: nalu_step_def Let_def appended_def
      split: list.splits if_splits prod.splits option.splits
      dest!: initVideoTrack_appended)

lemma nalu_step_binding:
  "nalu_step env si out nalu = (r, out', si') \<Longrightarrow> same_binding si si'"
  by (auto simp: nalu_step_def Let_def same_binding_def
      split: list.splits if_splits prod.splits option.splits
      dest!: initVideoTrack_binding)

lemma nalus_loop_appended:
  "nalus_loop env si out nalus = (r, out', si') \<Longrightarrow> appended is_SetReady si si'"
proof (induction nalus arbitrary: si out)
  case Nil
  then show ?case by simp
next
  case (Cons nalu nalus)
  obtain r1 out1 si1 where step: "nalu_step env si out nalu = (r1, out1, si1)"
    by (cases "nalu_step env si out nalu") auto
  from step have a: "appended is_SetReady si si1"
    by (rule nalu_step_appended)
  show ?case
  proof (cases r1)
    case None
    with Cons.prems step have "nalus_loop env si1 out1 nalus = (r, out', si')"
      by simp
    then have "appended is_SetReady si1 si'"
      by (rule Cons.IH)
    with a show ?thesis
      by (rule appended_trans)
  next
    case (Some e)
    with Cons.prems step a show ?thesis
      by simp
  qed
qed

lemma same_binding_trans: "same_binding si si1 \<Longrightarrow> same_binding si1 si2 \<Longrightarrow> same_binding si si2"
  by (simp add: same_binding_def)

lemma nalus_loop_binding:
  "nalus_loop env si out nalus = (r, out', si') \<Longrightarrow> same_binding si si'"
proof (induction nalus arbitrary: si out)
  case Nil
  then show ?case by (simp add: same_binding_def)
next
  case (Cons nalu nalus)
  obtain r1 out1 si1 where step: "nalu_step env si out nalu = (r1, out1, si1)"
    by (cases "nalu_step env si out nalu") auto
  from step have a: "same_binding si si1"
    by (rule nalu_step_binding)
  show ?case
  proof (cases r1)
    case None
    with Cons.prems step have "nalus_loop env si1 out1 nalus = (r, out', si')"
      by simp
    then have "same_binding si1 si'"
      by (rule Cons.IH)
    with a show ?thesis
      by (rule same_binding_trans)
  next
    case (Some e)
    with Cons.prems step a show ?thesis
      by simp
  qed
qed

lemma nalus_loop_video:
  assumes "nalus_loop env si out nalus = (r, out', si')"
  shows "appended is_video si si'"
proof -
  have "is_video e" if "is_SetReady e" for e
    using that by (cases e) simp_all
  with nalus_loop_appended [OF assms] show ?thesis
    by (rule appended_mono)
qed

lemma forward_appended:
  "forward env si pts nalus = (r, si') \<Longrightarrow> appended is_video si si'"
  by (auto simp: forward_def split: prod.splits option.splits if_splits sum.splits
      dest!: nalus_loop_video intro!: appended_emit)

lemma forward_binding:
  "forward env si pts nalus = (r, si') \<Longrightarrow> same_binding si si'"
  by (auto simp: forward_def same_binding_def split: prod.splits option.splits if_splits sum.splits
      dest!: nalus_loop_binding)

lemma pacing_appended:
  "pacing env tm si pts = (r, tm', si') \<Longrightarrow> appended is_video si si'"
  by (auto simp: pacing_def Let_def appended_def split: if_splits)

lemma pacing_binding:
  "pacing env tm si pts = (r, tm', si') \<Longrightarrow> same_binding si si'"
  by (auto simp: pacing_def Let_def same_binding_def split: if_splits)

lemma video_payload_appended:
  "video_payload env tm si pes = (r, tm', si') \<Longrightarrow> appended is_video si si'"
  by (auto simp: video_payload_def split: sum.splits option.splits prod.splits
      dest!: pacing_appended forward_appended elim: appended_trans)

lemma video_payload_binding:
  "video_payload env tm si pes = (r, tm', si') \<Longrightarrow> same_binding si si'"
  by (auto simp: video_payload_def split: sum.splits option.splits prod.splits
      dest!: pacing_binding forward_binding elim: same_binding_trans
      simp: same_binding_def)

lemma data_step_appended:
  "data_step env tm si d = (r, tm', si') \<Longrightarrow> appended is_video si si'"
  by (auto simp: data_step_def split: option.splits if_splits sum.splits
      dest!: video_payload_appended intro!: appended_emit)

lemma data_step_binding:
  "data_step env tm si d = (r, tm', si') \<Longrightarrow> same_binding si si'"
  by (auto simp: data_step_def same_binding_def split: option.splits if_splits sum.splits
      dest!: video_payload_binding)

lemma pes_loop_appended:
  "pes_loop env tm si dem = (r, tm', si') \<Longrightarrow> appended is_video si si'"
proof (induction env tm si dem rule: pes_loop.induct)
  case (1 env tm si)
  then show ?case by simp
next
  case (2 env tm si err dem)
  then show ?case by (simp split: if_splits)
next
  case (3 env tm si d dem)
  obtain r1 tm1 si1 where step: "data_step env tm si d = (r1, tm1, si1)"
    by (cases "data_step env tm si d") auto
  from step have a: "appended is_video si si1"
    by (rule data_step_appended)
  show ?case
  proof (cases r1)
    case None
    with "3.prems" step have "pes_loop env tm1 si1 dem = (r, tm', si')"
      by simp
    with "3.IH" step None have "appended is_video si1 si'"
      by simp
    with a show ?thesis
      by (rule appended_trans)
  next
    case (Some e)
    with "3.prems" step a show ?thesis
      by simp
  qed
qed

lemma pes_loop_binding:
  "pes_loop env tm si dem = (r, tm', si') \<Longrightarrow> same_binding si si'"
proof (induction env tm si dem rule: pes_loop.induct)
  case (1 env tm si)
  then show ?case by (simp add: same_binding_def)
next
  case (2 env tm si err dem)
  then show ?case by (simp add: same_binding_def split: if_splits)
next
  case (3 env tm si d dem)
  obtain r1 tm1 si1 where step: "data_step env tm si d = (r1, tm1, si1)"
    by (cases "data_step env tm si d") auto
  from step have a: "same_binding si si1"
    by (rule data_step_binding)
  show ?case
  proof (cases r1)
    case None
    with "3.prems" step have "pes_loop env tm1 si1 dem = (r, tm', si')"
      by simp
    with "3.IH" step None have "same_binding si1 si'"
      by simp
    with a show ?thesis
      by (rule same_binding_trans)
  next
    case (Some e)
    with "3.prems" step a show ?thesis
      by simp
  qed
qed

subsection \<open>The Program Map Table\<close>

lemma pmt_streams_bound:
  "videoPID si = Some p \<Longrightarrow>
   pmt_streams si es = (if h264_pids es = [] then (None, si) else (Some ErrMultipleTracks, si))"
  by (induction es) (auto simp: h264_pids_def split: stream_type.splits)

lemma pmt_streams_unbound:
  "videoPID si = None \<Longrightarrow>
   pmt_streams si es =
     (case h264_pids es of
        [] \<Rightarrow> (None, si)
      | [v] \<Rightarrow> (None, si\<lparr>videoPID := Some v\<rparr>)
      | v # w # ws \<Rightarrow> (Some ErrMultipleTracks, si\<lparr>videoPID := Some v\<rparr>))"
proof (induction es)
  case Nil
  then show ?case by (simp add: h264_pids_def)
next
  case (Cons e es)
  show ?case
  proof (cases "StreamType e = StreamTypeH264Video")
    case True
    have "pmt_streams si (e # es) = pmt_streams (si\<lparr>videoPID := Some (ElementaryPID e)\<rparr>) es"
      using True Cons.prems by simp
    also have "\<dots> = (if h264_pids es = [] then (None, si\<lparr>videoPID := Some (ElementaryPID e)\<rparr>)
                      else (Some ErrMultipleTracks, si\<lparr>videoPID := Some (ElementaryPID e)\<rparr>))"
      by (rule pmt_streams_bound) simp
    finally show ?thesis
      using True by (simp add: h264_pids_def split: list.splits)
  next
    case False
    then have "pmt_streams si (e # es) = pmt_streams si es"
      by (cases "StreamType e") simp_all
    with False Cons show ?thesis
      by (simp add: h264_pids_def)
  qed
qed

lemma pmt_streams_fields:
  assumes "pmt_streams si es = (r, si')"
  shows "\<exists>v. si' = si\<lparr>videoPID := v\<rparr>"
proof -
  have same: "\<exists>v. si = si\<lparr>videoPID := v\<rparr>"
    by (rule exI [of _ "videoPID si"]) simp
  show ?thesis
  proof (cases "videoPID si")
    case None
    from assms pmt_streams_unbound [OF None, of es] same show ?thesis
      by (auto split: list.splits)
  next
    case (Some p)
    from assms pmt_streams_bound [OF Some, of es] same show ?thesis
      by (auto split: if_splits)
  qed
qed

lemma fields_same: "\<exists>b v. si = si\<lparr>pmtDownloaded := b, videoPID := v\<rparr>"
proof -
  have "si = si\<lparr>pmtDownloaded := pmtDownloaded si, videoPID := videoPID si\<rparr>"
    by simp
  then show ?thesis by blast
qed

lemma pmt_loop_fields:
  "pmt_loop si dem = (x, si') \<Longrightarrow> \<exists>b v. si' = si\<lparr>pmtDownloaded := b, videoPID := v\<rparr>"
proof (induction si dem rule: pmt_loop.induct)
  case (1 si)
  then have "si' = si" by simp
  with fields_same [of si] show ?case by simp
next
  case (2 si err dem)
  then have "si' = si" by (simp split: if_splits)
  with fields_same [of si] show ?case by simp
next
  case (3 si d dem)
  show ?case
  proof (cases "PMT d")
    case None
    with 3 show ?thesis by simp
  next
    case (Some p)
    obtain r1 si1 where s1: "pmt_streams (si\<lparr>pmtDownloaded := True\<rparr>) (ElementaryStreams p) = (r1, si1)"
      by (cases "pmt_streams (si\<lparr>pmtDownloaded := True\<rparr>) (ElementaryStreams p)") auto
    from pmt_streams_fields [OF s1] obtain v where "si1 = si\<lparr>pmtDownloaded := True, videoPID := v\<rparr>"
      by auto
    moreover from "3.prems" Some s1 have "si' = si1"
      by (auto split: option.splits)
    ultimately show ?thesis by blast
  qed
qed

lemma get_PMT_fields:
  assumes "get_PMT si dem = (x, si')"
  shows "\<exists>b v. si' = si\<lparr>pmtDownloaded := b, videoPID := v\<rparr>"
proof (cases "pmtDownloaded si")
  case True
  with assms have "si' = si"
    by (simp add: get_PMT_def)
  with fields_same [of si] show ?thesis by simp
next
  case False
  with assms have "pmt_loop si dem = (x, si')"
    by (simp add: get_PMT_def)
  then show ?thesis
    by (rule pmt_loop_fields)
qed

subsection \<open>Fetching\<close>

lemma fetch_step_refl [simp]: "fetch_step si si"
proof -
  have "si = si\<lparr>ur := ur si, queue := queue si, trace := trace si @ [], tick := tick si\<rparr>"
    by simp
  moreover have "list_all is_fetch_or_idle []"
    by simp
  ultimately show ?thesis
    unfolding fetch_step_def by blast
qed

lemma fetch_step_trans:
  assumes "fetch_step si si1" and "fetch_step si1 si2"
  shows "fetch_step si si2"
proof -
  from assms(1) obtain u q n new where 1:
    "si1 = si\<lparr>ur := u, queue := q, trace := trace si @ new, tick := n\<rparr>"
    "list_all is_fetch_or_idle new"
    unfolding fetch_step_def by blast
  from assms(2) obtain u' q' n' new' where 2:
    "si2 = si1\<lparr>ur := u', queue := q', trace := trace si1 @ new', tick := n'\<rparr>"
    "list_all is_fetch_or_idle new'"
    unfolding fetch_step_def by blast
  from 1(1) 2(1) have
    "si2 = si\<lparr>ur := u', queue := q', trace := trace si @ (new @ new'), tick := n'\<rparr>"
    by simp
  moreover from 1(2) 2(2) have "list_all is_fetch_or_idle (new @ new')"
    by simp
  ultimately show ?thesis
    unfolding fetch_step_def by blast
qed

lemma fetch_step_emit:
  assumes "is_fetch_or_idle e"
  shows "fetch_step si (emit e si)"
proof -
  have "emit e si = si\<lparr>ur := ur si, queue := queue si, trace := trace si @ [e], tick := tick si\<rparr>"
    by (simp add: emit_def)
  moreover from assms have "list_all is_fetch_or_idle [e]"
    by simp
  ultimately show ?thesis
    unfolding fetch_step_def by blast
qed

lemma fetch_step_next_tick: "fetch_step si (next_tick si)"
proof -
  have "next_tick si = si\<lparr>ur := ur si, queue := queue si, trace := trace si @ [], tick := Suc (tick si)\<rparr>"
    by (simp add: next_tick_def)
  moreover have "list_all is_fetch_or_idle []"
    by simp
  ultimately show ?thesis
    unfolding fetch_step_def by blast
qed

lemma fetch_step_ur: "fetch_step si (si\<lparr>ur := u\<rparr>)"
proof -
  have "si\<lparr>ur := u\<rparr> = si\<lparr>ur := u, queue := queue si, trace := trace si @ [], tick := tick si\<rparr>"
    by simp
  moreover have "list_all is_fetch_or_idle []"
    by simp
  ultimately show ?thesis
    unfolding fetch_step_def by blast
qed

lemma fetch_step_queue: "fetch_step si (si\<lparr>queue := q\<rparr>)"
proof -
  have "si\<lparr>queue := q\<rparr> = si\<lparr>ur := ur si, queue := q, trace := trace si @ [], tick := tick si\<rparr>"
    by simp
  moreover have "list_all is_fetch_or_idle []"
    by simp
  ultimately show ?thesis
    unfolding fetch_step_def by blast
qed

lemma fetch_step_fields:
  assumes "fetch_step si si'"
  shows "s_ur si' = s_ur si" and "pmtDownloaded si' = pmtDownloaded si"
    and "videoPID si' = videoPID si" and "audioPID si' = audioPID si"
    and "videoSPS si' = videoSPS si" and "videoPPS si' = videoPPS si"
    and "videoTrack si' = videoTrack si" and "videoEncoder si' = videoEncoder si"
    and "stream si' = stream si" and "appended is_fetch_or_idle si si'"
  using assms by (auto simp: fetch_step_def appended_def)

lemma http_GET_fetch: "http_GET env si u = (r, si') \<Longrightarrow> fetch_step si si'"
  by (auto simp: http_GET_def intro: fetch_step_trans [OF fetch_step_next_tick fetch_step_emit])

lemma playlistDownloadSingle_fetch:
  "playlistDownloadSingle env si = (r, si') \<Longrightarrow> fetch_step si si'"
  by (auto simp: playlistDownloadSingle_def split: option.splits prod.splits sum.splits if_splits
      dest: http_GET_fetch)

lemma playlistDownloadMedia_fetch:
  "playlistDownloadMedia env si = (r, si') \<Longrightarrow> fetch_step si si'"
  by (auto simp: playlistDownloadMedia_def split: prod.splits sum.splits playlist.splits
      dest: playlistDownloadSingle_fetch)

lemma playlistDownloadMaster_fetch:
  assumes "playlistDownloadMaster env si = (r, si')"
  shows "fetch_step si si'"
proof (cases "url_Parse env (s_ur si)")
  case (Inl err)
  with assms have "si' = si\<lparr>ur := None\<rparr>"
    by (simp add: playlistDownloadMaster_def)
  then show ?thesis
    by (simp add: fetch_step_ur)
next
  case (Inr root)
  obtain r1 si1 where single: "playlistDownloadSingle env (si\<lparr>ur := Some root\<rparr>) = (r1, si1)"
    by (cases "playlistDownloadSingle env (si\<lparr>ur := Some root\<rparr>)") auto
  have a: "fetch_step si si1"
    by (rule fetch_step_trans [OF fetch_step_ur playlistDownloadSingle_fetch [OF single]])
  have "si' = si1 \<or> (\<exists>u r2. playlistDownloadMedia env (si1\<lparr>ur := Some u\<rparr>) = (r2, si'))"
    using assms Inr single
    by (auto simp: playlistDownloadMaster_def split: sum.splits playlist.splits option.splits)
  then show ?thesis
  proof
    assume "si' = si1"
    with a show ?thesis by simp
  next
    assume "\<exists>u r2. playlistDownloadMedia env (si1\<lparr>ur := Some u\<rparr>) = (r2, si')"
    then obtain u r2 where "playlistDownloadMedia env (si1\<lparr>ur := Some u\<rparr>) = (r2, si')"
      by blast
    then have "fetch_step (si1\<lparr>ur := Some u\<rparr>) si'"
      by (rule playlistDownloadMedia_fetch)
    with fetch_step_ur have "fetch_step si1 si'"
      by (rule fetch_step_trans)
    with a show ?thesis
      by (rule fetch_step_trans)
  qed
qed

lemma queueFill_fetch:
  assumes "queueFill env si = (r, si')"
  shows "fetch_step si si'"
proof -
  obtain r1 si1 where dl:
    "(if ur si = None then playlistDownloadMaster env si else playlistDownloadMedia env si) = (r1, si1)"
    by (cases "if ur si = None then playlistDownloadMaster env si else playlistDownloadMedia env si")
      auto
  then have a: "fetch_step si si1"
    by (auto split: if_splits dest: playlistDownloadMaster_fetch playlistDownloadMedia_fetch)
  from assms dl have "si' = si1 \<or> (\<exists>q. si' = si1\<lparr>queue := q\<rparr>)"
    by (auto simp: queueFill_def split: sum.splits)
  with a show ?thesis
    by (auto intro: fetch_step_trans [OF _ fetch_step_queue])
qed

subsection \<open>The parts of segmentProcess\<close>

lemma segmentProcess_cases:
  assumes "segmentProcess env si segmentURI = (r, si')"
  shows "fetch_step si si'
     \<or> (\<exists>si1 dem. fetch_step si si1 \<and> get_PMT si1 dem = (Return r, si'))
     \<or> (\<exists>si1 dem si2 dem' tm. fetch_step si si1 \<and> get_PMT si1 dem = (Break dem', si2)
           \<and> pes_loop env timing0 si2 dem' = (r, tm, si'))"
proof (cases "hlsSourceURLAbsolute env (ur si) segmentURI")
  case (Inl err)
  with assms show ?thesis
    by (simp add: segmentProcess_def)
next
  case (Inr u)
  obtain g si1 where get: "http_GET env si u = (g, si1)"
    by (cases "http_GET env si u") auto
  then have f: "fetch_step si si1"
    by (rule http_GET_fetch)
  show ?thesis
  proof (cases g)
    case (Inl err)
    with assms Inr get f show ?thesis
      by (simp add: segmentProcess_def)
  next
    case res: (Inr res)
    show ?thesis
    proof (cases "StatusCode res = 200")
      case False
      with assms Inr get res f show ?thesis
        by (simp add: segmentProcess_def)
    next
      case True
      obtain x si2 where pmt: "get_PMT si1 (astits_NewDemuxer env (Body res)) = (x, si2)"
        by (cases "get_PMT si1 (astits_NewDemuxer env (Body res))") auto
      show ?thesis
      proof (cases x)
        case (Return r')
        with assms Inr get res True pmt have "r' = r" "si2 = si'"
          by (simp_all add: segmentProcess_def)
        with f pmt Return show ?thesis
          by blast
      next
        case (Break dem')
        obtain r3 tm si3 where pes: "pes_loop env timing0 si2 dem' = (r3, tm, si3)"
          by (cases "pes_loop env timing0 si2 dem'") auto
        with assms Inr get res True pmt Break have "r3 = r" "si3 = si'"
          by (simp_all add: segmentProcess_def)
        with f pmt Break pes show ?thesis
          by blast
      qed
    qed
  qed
qed

lemma segmentProcess_audioPID:
  assumes "segmentProcess env si segmentURI = (r, si')"
  shows "audioPID si' = audioPID si"
  using segmentProcess_cases [OF assms]
  by (auto dest!: fetch_step_fields(4) get_PMT_fields pes_loop_binding simp: same_binding_def)

lemma segmentProcess_pmtDownloaded:
  assumes "segmentProcess env si segmentURI = (r, si')" and "pmtDownloaded si"
  shows "pmtDownloaded si' \<and> videoPID si' = videoPID si"
proof -
  from segmentProcess_cases [OF assms(1)] consider
    (early) "fetch_step si si'"
    | (pmt) si1 dem where "fetch_step si si1" "get_PMT si1 dem = (Return r, si')"
    | (pes) si1 dem si2 dem' tm where "fetch_step si si1" "get_PMT si1 dem = (Break dem', si2)"
        "pes_loop env timing0 si2 dem' = (r, tm, si')"
    by blast
  then show ?thesis
  proof cases
    case early
    with assms(2) show ?thesis
      by (simp add: fetch_step_fields)
  next
    case pmt
    from pmt(1) assms(2) have "pmtDownloaded si1"
      by (simp add: fetch_step_fields)
    with pmt(2) show ?thesis
      by (simp add: get_PMT_def)
  next
    case pes
    from pes(1) assms(2) have 1: "pmtDownloaded si1" "videoPID si1 = videoPID si"
      by (simp_all add: fetch_step_fields)
    with pes(2) have "si2 = si1"
      by (simp add: get_PMT_def)
    with pes_loop_binding [OF pes(3)] 1 show ?thesis
      by (simp add: same_binding_def)
  qed
qed

lemma pmt_loop_skip: "list_all no_PMT pre \<Longrightarrow> pmt_loop si (pre @ dem) = pmt_loop si dem"
proof (induction pre)
  case Nil
  show ?case by simp
next
  case (Cons x pre)
  then show ?case
    by (cases x) simp_all
qed

lemma get_PMT_first:
  assumes "\<not> pmtDownloaded si" and "videoPID si = None" and "list_all no_PMT pre"
    and "PMT d = Some p"
  shows "get_PMT si (pre @ Inr d # dem) =
      (case h264_pids (ElementaryStreams p) of
         [] \<Rightarrow> (Break dem, si\<lparr>pmtDownloaded := True\<rparr>)
       | [v] \<Rightarrow> (Break dem, si\<lparr>pmtDownloaded := True, videoPID := Some v\<rparr>)
       | v # w # ws \<Rightarrow>
           (Return (Some ErrMultipleTracks), si\<lparr>pmtDownloaded := True, videoPID := Some v\<rparr>))"
proof -
  have "videoPID (si\<lparr>pmtDownloaded := True\<rparr>) = None"
    using assms(2) by simp
  from pmt_streams_unbound [OF this, of "ElementaryStreams p"] assms(1,3,4) show ?thesis
    by (simp add: get_PMT_def pmt_loop_skip split: list.splits)
qed

lemma segmentProcess_first_PMT:
  assumes "\<not> pmtDownloaded si" and "videoPID si = None"
    and "hlsSourceURLAbsolute env (ur si) segmentURI = Inr u"
    and "http_Do env (tick si) u = Inr res" and "StatusCode res = 200"
    and "astits_NewDemuxer env (Body res) = pre @ Inr d # dem"
    and "list_all no_PMT pre" and "PMT d = Some p"
  shows "segmentProcess env si segmentURI =
     (case h264_pids (ElementaryStreams p) of
        [] \<Rightarrow>
          (case pes_loop env timing0
                  ((emit (EvHTTPGet u) (next_tick si))\<lparr>pmtDownloaded := True\<rparr>) dem of
             (r, tm, si3) \<Rightarrow> (r, si3))
      | [v] \<Rightarrow>
          (case pes_loop env timing0
                  ((emit (EvHTTPGet u) (next_tick si))\<lparr>pmtDownloaded := True, videoPID := Some v\<rparr>)
                  dem of
             (r, tm, si3) \<Rightarrow> (r, si3))
      | v # w # ws \<Rightarrow>
          (Some ErrMultipleTracks,
           (emit (EvHTTPGet u) (next_tick si))\<lparr>pmtDownloaded := True, videoPID := Some v\<rparr>))"
proof -
  let ?si1 = "emit (EvHTTPGet u) (next_tick si)"
  have "\<not> pmtDownloaded ?si1" "videoPID ?si1 = None"
    using assms(1,2) by simp_all
  from get_PMT_first [OF this assms(7,8), of dem] assms(3-6) show ?thesis
    by (simp add: segmentProcess_def http_GET_def split: list.splits)
qed

lemma segmentProcess_binds:
  assumes "\<not> pmtDownloaded si" and "videoPID si = None"
    and "hlsSourceURLAbsolute env (ur si) segmentURI = Inr u"
    and "http_Do env (tick si) u = Inr res" and "StatusCode res = 200"
    and "astits_NewDemuxer env (Body res) = pre @ Inr d # dem"
    and "list_all no_PMT pre" and "PMT d = Some p"
    and "segmentProcess env si segmentURI = (r, si')"
  shows "pmtDownloaded si' \<and> audioPID si' = audioPID si
     \<and> (case h264_pids (ElementaryStreams p) of
           [] \<Rightarrow> videoPID si' = None
         | [v] \<Rightarrow> videoPID si' = Some v
         | v # w # ws \<Rightarrow> videoPID si' = Some v \<and> r = Some ErrMultipleTracks)"
proof -
  note eq = segmentProcess_first_PMT [OF assms(1-8)]
  let ?si1 = "emit (EvHTTPGet u) (next_tick si)"
  have b: "pmtDownloaded sb \<and> videoPID sb = videoPID sa \<and> audioPID sb = audioPID sa"
    if "pes_loop env timing0 sa dem = (x, tm, sb)" "pmtDownloaded sa" for sa sb x tm
    using pes_loop_binding [OF that(1)] that(2) by (simp add: same_binding_def)
  show ?thesis
  proof (cases "h264_pids (ElementaryStreams p)")
    case Nil
    obtain x tm sb where l: "pes_loop env timing0 (?si1\<lparr>pmtDownloaded := True\<rparr>) dem = (x, tm, sb)"
      by (cases "pes_loop env timing0 (?si1\<lparr>pmtDownloaded := True\<rparr>) dem") auto
    with eq Nil assms(9) have "si' = sb"
      by simp
    with b [OF l] Nil assms(2) show ?thesis
      by simp
  next
    case (Cons v vs)
    show ?thesis
    proof (cases vs)
      case Nil
      obtain x tm sb where l:
        "pes_loop env timing0 (?si1\<lparr>pmtDownloaded := True, videoPID := Some v\<rparr>) dem = (x, tm, sb)"
        by (cases "pes_loop env timing0 (?si1\<lparr>pmtDownloaded := True, videoPID := Some v\<rparr>) dem")
          auto
      with eq Cons Nil assms(9) have "si' = sb"
        by simp
      with b [OF l] Cons Nil show ?thesis
        by simp
    next
      case c2: (Cons w ws)
      with eq Cons assms(9) show ?thesis
        by auto
    qed
  qed
qed

lemma run_segment_error:
  assumes "(if length (queue si) \<le> 1 then queueFill env si else (None, si)) = (None, si1)"
    and "queue si1 = el # rest"
    and "segmentProcess env (si1\<lparr>queue := rest\<rparr>) el = (Some err, si2)"
  shows "run (Suc n) env si = Some (err, run_deferred si2)"
proof -
  from assms have "run_loop (Suc n) env si = Some (err, si2)"
    by simp
  then show ?thesis
    by (simp add: run_def)
qed

lemma run_multiple_tracks:
  assumes "(if length (queue si) \<le> 1 then queueFill env si else (None, si)) = (None, si1)"
    and "queue si1 = el # rest"
    and "\<not> pmtDownloaded si1" and "videoPID si1 = None"
    and "hlsSourceURLAbsolute env (ur si1) el = Inr u"
    and "http_Do env (tick si1) u = Inr res" and "StatusCode res = 200"
    and "astits_NewDemuxer env (Body res) = pre @ Inr d # dem"
    and "list_all no_PMT pre" and "PMT d = Some p"
    and "h264_pids (ElementaryStreams p) = v # w # ws"
  shows "run (Suc n) env si =
     Some (ErrMultipleTracks,
       run_deferred ((emit (EvHTTPGet u) (next_tick (si1\<lparr>queue := rest\<rparr>)))
                       \<lparr>pmtDownloaded := True, videoPID := Some v\<rparr>))"
proof -
  let ?sq = "si1\<lparr>queue := rest\<rparr>"
  have "\<not> pmtDownloaded ?sq" "videoPID ?sq = None"
    "hlsSourceURLAbsolute env (ur ?sq) el = Inr u" "http_Do env (tick ?sq) u = Inr res"
    using assms(3-6) by simp_all
  from segmentProcess_first_PMT [OF this assms(7-10)] assms(11)
  have "segmentProcess env ?sq el =
      (Some ErrMultipleTracks,
       (emit (EvHTTPGet u) (next_tick ?sq))\<lparr>pmtDownloaded := True, videoPID := Some v\<rparr>)"
    by simp
  with assms(1,2) show ?thesis
    by (rule run_segment_error)
qed

text \<open>
  C7. Before its first PMT an attempt has the flag clear and no video PID. At the first
  PMT the demuxer yields, the flag is set; with no H.264 entry nothing is bound, with one
  the video PID is bound to it, and with two or more the search fails with "multiple
  video/audio tracks are not supported". Once the flag is set, the PMT is not looked for
  again, and every later segment leaves the flag and the video PID as they are. No
  segment changes the audio PID. A PMT with two H.264 entries fails; a PMT with one
  H.264 and one AAC entry binds the video PID only and does not fail.

  The same holds of the attempt. For a segment that is fetched with status 200 and whose
  first PMT comes after units without one, \<open>segmentProcess\<close> returns "multiple video/audio
  tracks are not supported" when the PMT has two or more H.264 entries, and otherwise
  goes on to the payloads with the flag set and the video PID bound to the one H.264
  entry, or unbound when there is none; the attempt it returns has the flag set, that
  video PID and the audio PID it had. When the run loop takes such a segment with two
  H.264 entries from the queue, \<open>run\<close> returns that error: the attempt fails. On the
  origin \<open>dual.m3u8\<close> the attempt ends with that error after two requests.
\<close>

theorem pmt_binding:
  "(\<not> pmtDownloaded si \<and> videoPID si = None \<and> list_all no_PMT pre \<and> PMT d = Some p \<longrightarrow>
      get_PMT si (pre @ Inr d # dem) =
        (case h264_pids (ElementaryStreams p) of
           [] \<Rightarrow> (Break dem, si\<lparr>pmtDownloaded := True\<rparr>)
         | [v] \<Rightarrow> (Break dem, si\<lparr>pmtDownloaded := True, videoPID := Some v\<rparr>)
         | v # w # ws \<Rightarrow>
             (Return (Some ErrMultipleTracks),
              si\<lparr>pmtDownloaded := True, videoPID := Some v\<rparr>))) \<and>
   (pmtDownloaded si \<longrightarrow> get_PMT si dem = (Break dem, si)) \<and>
   (segmentProcess env si segmentURI = (r, si') \<longrightarrow>
      audioPID si' = audioPID si \<and>
      (pmtDownloaded si \<longrightarrow> pmtDownloaded si' \<and> videoPID si' = videoPID si)) \<and>
   get_PMT (newHLSSourceInstance root)
     [Inr \<lparr>PID = 4096,
           PMT = Some \<lparr>ElementaryStreams =
                    [\<lparr>StreamType = StreamTypeH264Video, ElementaryPID = 256\<rparr>,
                     \<lparr>StreamType = StreamTypeH264Video, ElementaryPID = 257\<rparr>]\<rparr>,
           PES = None\<rparr>]
     = (Return (Some ErrMultipleTracks),
        (newHLSSourceInstance root)\<lparr>pmtDownloaded := True, videoPID := Some 256\<rparr>) \<and>
   get_PMT (newHLSSourceInstance root)
     [Inr \<lparr>PID = 4096,
           PMT = Some \<lparr>ElementaryStreams =
                    [\<lparr>StreamType = StreamTypeH264Video, ElementaryPID = 256\<rparr>,
                     \<lparr>StreamType = StreamTypeAACAudio, ElementaryPID = 257\<rparr>]\<rparr>,
           PES = None\<rparr>]
     = (Break [], (newHLSSourceInstance root)\<lparr>pmtDownloaded := True, videoPID := Some 256\<rparr>) \<and>
   (\<not> pmtDownloaded si \<and> videoPID si = None
      \<and> hlsSourceURLAbsolute env (ur si) segmentURI = Inr u
      \<and> http_Do env (tick si) u = Inr res \<and> StatusCode res = 200
      \<and> astits_NewDemuxer env (Body res) = pre @ Inr d # dem
      \<and> list_all no_PMT pre \<and> PMT d = Some p \<longrightarrow>
      segmentProcess env si segmentURI =
        (case h264_pids (ElementaryStreams p) of
           [] \<Rightarrow>
             (case pes_loop env timing0
                     ((emit (EvHTTPGet u) (next_tick si))\<lparr>pmtDownloaded := True\<rparr>) dem of
                (r, tm, si3) \<Rightarrow> (r, si3))
         | [v] \<Rightarrow>
             (case pes_loop env timing0
                     ((emit (EvHTTPGet u) (next_tick si))
                        \<lparr>pmtDownloaded := True, videoPID := Some v\<rparr>) dem of
                (r, tm, si3) \<Rightarrow> (r, si3))
         | v # w # ws \<Rightarrow>
             (Some ErrMultipleTracks,
              (emit (EvHTTPGet u) (next_tick si))
                \<lparr>pmtDownloaded := True, videoPID := Some v\<rparr>))) \<and>
   (\<not> pmtDownloaded si \<and> videoPID si = None
      \<and> hlsSourceURLAbsolute env (ur si) segmentURI = Inr u
      \<and> http_Do env (tick si) u = Inr res \<and> StatusCode res = 200
      \<and> astits_NewDemuxer env (Body res) = pre @ Inr d # dem
      \<and> list_all no_PMT pre \<and> PMT d = Some p
      \<and> segmentProcess env si segmentURI = (r, si') \<longrightarrow>
      pmtDownloaded si' \<and> audioPID si' = audioPID si
      \<and> (case h264_pids (ElementaryStreams p) of
            [] \<Rightarrow> videoPID si' = None
          | [v] \<Rightarrow> videoPID si' = Some v
          | v # w # ws \<Rightarrow> videoPID si' = Some v \<and> r = Some ErrMultipleTracks)) \<and>
   ((if length (queue sa) \<le> 1 then queueFill env sa else (None, sa)) = (None, sb)
      \<and> queue sb = el # rest \<and> \<not> pmtDownloaded sb \<and> videoPID sb = None
      \<and> hlsSourceURLAbsolute env (ur sb) el = Inr u
      \<and> http_Do env (tick sb) u = Inr res \<and> StatusCode res = 200
      \<and> astits_NewDemuxer env (Body res) = pre @ Inr d # dem
      \<and> list_all no_PMT pre \<and> PMT d = Some p
      \<and> h264_pids (ElementaryStreams p) = v1 # v2 # vs \<longrightarrow>
      run (Suc n) env sa =
        Some (ErrMultipleTracks,
          run_deferred ((emit (EvHTTPGet u) (next_tick (sb\<lparr>queue := rest\<rparr>)))
                          \<lparr>pmtDownloaded := True, videoPID := Some v1\<rparr>))) \<and>
   outcome (run 5 (ex_env 9 ex_granted) (newHLSSourceInstance ''http://h/a/dual.m3u8''))
     = Some (ErrMultipleTracks,
         [EvHTTPGet (ex_url ''http'' ''h'' ''/a/dual.m3u8''),
          EvHTTPGet (ex_url ''http'' ''h'' ''/a/dual.ts'')])"
proof -
  have two: "get_PMT (newHLSSourceInstance root)
     [Inr \<lparr>PID = 4096,
           PMT = Some \<lparr>ElementaryStreams =
                    [\<lparr>StreamType = StreamTypeH264Video, ElementaryPID = 256\<rparr>,
                     \<lparr>StreamType = StreamTypeH264Video, ElementaryPID = 257\<rparr>]\<rparr>,
           PES = None\<rparr>]
     = (Return (Some ErrMultipleTracks),
        (newHLSSourceInstance root)\<lparr>pmtDownloaded := True, videoPID := Some 256\<rparr>)"
    by (simp add: get_PMT_def newHLSSourceInstance_def)
  have mixed: "get_PMT (newHLSSourceInstance root)
     [Inr \<lparr>PID = 4096,
           PMT = Some \<lparr>ElementaryStreams =
                    [\<lparr>StreamType = StreamTypeH264Video, ElementaryPID = 256\<rparr>,
                     \<lparr>StreamType = StreamTypeAACAudio, ElementaryPID = 257\<rparr>]\<rparr>,
           PES = None\<rparr>]
     = (Break [], (newHLSSourceInstance root)\<lparr>pmtDownloaded := True, videoPID := Some 256\<rparr>)"
    by (simp add: get_PMT_def newHLSSourceInstance_def)
  have skip: "pmtDownloaded si \<longrightarrow> get_PMT si dem = (Break dem, si)"
    by (simp add: get_PMT_def)
  have dual: "outcome (run 5 (ex_env 9 ex_granted) (newHLSSourceInstance ''http://h/a/dual.m3u8''))
     = Some (ErrMultipleTracks,
         [EvHTTPGet (ex_url ''http'' ''h'' ''/a/dual.m3u8''),
          EvHTTPGet (ex_url ''http'' ''h'' ''/a/dual.ts'')])"
    by code_simp
  from two mixed skip dual show ?thesis
    using get_PMT_first [of si pre d p dem]
      segmentProcess_audioPID [of env si segmentURI r si']
      segmentProcess_pmtDownloaded [of env si segmentURI r si']
      segmentProcess_first_PMT [of si env segmentURI u res pre d dem p]
      segmentProcess_binds [of si env segmentURI u res pre d dem p r si']
      run_multiple_tracks [of sa env sb el rest u res pre d dem p v1 v2 vs n]
    by blast
qed


theorem pmt_binding_witness:
  "get_PMT (newHLSSourceInstance ''http://h/a/live.m3u8'')
     [ex_pes 1 0,
      Inr \<lparr>PID = 4096,
           PMT = Some \<lparr>ElementaryStreams =
                    [\<lparr>StreamType = StreamTypeOther, ElementaryPID = 255\<rparr>,
                     \<lparr>StreamType = StreamTypeH264Video, ElementaryPID = 256\<rparr>]\<rparr>,
           PES = None\<rparr>,
      ex_pes 2 0]
     = (Break [ex_pes 2 0],
        (newHLSSourceInstance ''http://h/a/live.m3u8'')
          \<lparr>pmtDownloaded := True, videoPID := Some 256\<rparr>) \<and>
   pmtDownloaded
     (snd (segmentProcess (ex_env 9 ex_granted)
        ((newHLSSourceInstance ''http://h/a/live.m3u8'')
           \<lparr>ur := Some (ex_url ''http'' ''h'' ''/a/live.m3u8''), pmtDownloaded := True\<rparr>)
        ''seg1.ts'')) \<and>
   segmentProcess (ex_env 9 ex_granted)
     ((newHLSSourceInstance ''http://h/a/dual.m3u8'')
        \<lparr>ur := Some (ex_url ''http'' ''h'' ''/a/dual.m3u8'')\<rparr>) ''dual.ts''
     = (Some ErrMultipleTracks,
        (emit (EvHTTPGet (ex_url ''http'' ''h'' ''/a/dual.ts''))
           (next_tick ((newHLSSourceInstance ''http://h/a/dual.m3u8'')
              \<lparr>ur := Some (ex_url ''http'' ''h'' ''/a/dual.m3u8'')\<rparr>)))
        \<lparr>pmtDownloaded := True, videoPID := Some 256\<rparr>) \<and>
   videoPID (snd (segmentProcess (ex_env 9 ex_granted)
      ((newHLSSourceInstance ''http://h/a/master.m3u8'')
         \<lparr>ur := Some (ex_url ''http'' ''h'' ''/a/hi.m3u8'')\<rparr>) ''seg0.ts'')) = Some 256 \<and>
   audioPID (snd (segmentProcess (ex_env 9 ex_granted)
      ((newHLSSourceInstance ''http://h/a/master.m3u8'')
         \<lparr>ur := Some (ex_url ''http'' ''h'' ''/a/hi.m3u8'')\<rparr>) ''seg0.ts'')) = None \<and>
   pmtDownloaded (snd (segmentProcess (ex_env 9 ex_granted)
      ((newHLSSourceInstance ''http://h/a/master.m3u8'')
         \<lparr>ur := Some (ex_url ''http'' ''h'' ''/a/hi.m3u8'')\<rparr>) ''seg0.ts'')) \<and>
   map_option fst (run (Suc 4) (ex_env 9 ex_granted) (newHLSSourceInstance ''http://h/a/dual.m3u8''))
     = Some ErrMultipleTracks"
proof -
  let ?env = "ex_env 9 ex_granted"
  let ?si = "newHLSSourceInstance ''http://h/a/live.m3u8''"
  let ?d = "\<lparr>PID = 4096,
           PMT = Some \<lparr>ElementaryStreams =
                    [\<lparr>StreamType = StreamTypeOther, ElementaryPID = 255\<rparr>,
                     \<lparr>StreamType = StreamTypeH264Video, ElementaryPID = 256 :: 16 word\<rparr>]\<rparr>,
           PES = None\<rparr>"
  let ?p = "\<lparr>ElementaryStreams =
                    [\<lparr>StreamType = StreamTypeOther, ElementaryPID = 255\<rparr>,
                     \<lparr>StreamType = StreamTypeH264Video, ElementaryPID = 256 :: 16 word\<rparr>]\<rparr>"
  let ?sj = "?si\<lparr>ur := Some (ex_url ''http'' ''h'' ''/a/live.m3u8''), pmtDownloaded := True\<rparr>"
  have 1: "\<not> pmtDownloaded ?si \<and> videoPID ?si = None \<and> list_all no_PMT [ex_pes 1 0]
      \<and> PMT ?d = Some ?p"
    by (simp add: newHLSSourceInstance_def ex_pes_def)
  have 2: "h264_pids (ElementaryStreams ?p) = [256]"
    by (simp add: h264_pids_def)
  have 3: "pmtDownloaded ?sj"
    by simp
  have 4: "segmentProcess ?env ?sj ''seg1.ts'' =
      (fst (segmentProcess ?env ?sj ''seg1.ts''), snd (segmentProcess ?env ?sj ''seg1.ts''))"
    by simp
  from pmt_binding [of ?si "[ex_pes 1 0]" ?d ?p "[ex_pes 2 0]"] 1 2
  have a: "get_PMT ?si ([ex_pes 1 0] @ Inr ?d # [ex_pes 2 0])
      = (Break [ex_pes 2 0], ?si\<lparr>pmtDownloaded := True, videoPID := Some 256\<rparr>)"
    by simp
  from pmt_binding [where si = ?sj and env = ?env and segmentURI = "''seg1.ts''"
      and r = "fst (segmentProcess ?env ?sj ''seg1.ts'')"
      and si' = "snd (segmentProcess ?env ?sj ''seg1.ts'')"] 3 4
  have b: "pmtDownloaded (snd (segmentProcess ?env ?sj ''seg1.ts''))"
    by blast
  let ?dd = "\<lparr>PID = 4096,
          PMT = Some \<lparr>ElementaryStreams =
                   [\<lparr>StreamType = StreamTypeH264Video, ElementaryPID = 256\<rparr>,
                    \<lparr>StreamType = StreamTypeH264Video, ElementaryPID = 258 :: 16 word\<rparr>]\<rparr>,
          PES = None :: pes_data option\<rparr>"
  let ?pd = "\<lparr>ElementaryStreams =
                   [\<lparr>StreamType = StreamTypeH264Video, ElementaryPID = 256\<rparr>,
                    \<lparr>StreamType = StreamTypeH264Video, ElementaryPID = 258 :: 16 word\<rparr>]\<rparr>"
  let ?ud = "ex_url ''http'' ''h'' ''/a/dual.ts''"
  let ?rd = "\<lparr>StatusCode = 200, Body = [9]\<rparr>"
  let ?s0 = "newHLSSourceInstance ''http://h/a/dual.m3u8''"
  let ?sd = "?s0\<lparr>ur := Some (ex_url ''http'' ''h'' ''/a/dual.m3u8'')\<rparr>"
  have dm: "astits_NewDemuxer ?env (Body ?rd) = [ex_pes 1 0] @ Inr ?dd # [ex_pes 1 0]"
    "list_all no_PMT [ex_pes 1 0]" "PMT ?dd = Some ?pd" "StatusCode ?rd = 200"
    "h264_pids (ElementaryStreams ?pd) = 256 # 258 # []"
    by (simp_all add: ex_env_def ex_NewDemuxer_def ex_pmt_dual_def ex_pes_def h264_pids_def)
  have sd: "\<not> pmtDownloaded ?sd" "videoPID ?sd = None"
    "hlsSourceURLAbsolute ?env (ur ?sd) ''dual.ts'' = Inr ?ud"
    "http_Do ?env (tick ?sd) ?ud = Inr ?rd"
    by (simp_all add: newHLSSourceInstance_def hlsSourceURLAbsolute_def ex_env_def ex_Parse_def
        ex_url_def IsAbs_def ex_Dir_def ex_Join_def ex_http_def)
  from pmt_binding [where si = ?sd and env = ?env and segmentURI = "''dual.ts''" and u = ?ud
      and res = ?rd and pre = "[ex_pes 1 0]" and d = ?dd and dem = "[ex_pes 1 0]" and p = ?pd,
      THEN conjunct2, THEN conjunct2, THEN conjunct2, THEN conjunct2, THEN conjunct2,
      THEN conjunct1]
    sd dm
  have c: "segmentProcess ?env ?sd ''dual.ts''
      = (Some ErrMultipleTracks,
         (emit (EvHTTPGet ?ud) (next_tick ?sd))\<lparr>pmtDownloaded := True, videoPID := Some 256\<rparr>)"
    by simp
  let ?dm = "\<lparr>PID = 4096,
          PMT = Some \<lparr>ElementaryStreams =
                   [\<lparr>StreamType = StreamTypeH264Video, ElementaryPID = 256\<rparr>,
                    \<lparr>StreamType = StreamTypeAACAudio, ElementaryPID = 257 :: 16 word\<rparr>]\<rparr>,
          PES = None :: pes_data option\<rparr>"
  let ?pm = "\<lparr>ElementaryStreams =
                   [\<lparr>StreamType = StreamTypeH264Video, ElementaryPID = 256\<rparr>,
                    \<lparr>StreamType = StreamTypeAACAudio, ElementaryPID = 257 :: 16 word\<rparr>]\<rparr>"
  let ?um = "ex_url ''http'' ''h'' ''/a/seg0.ts''"
  let ?rm = "\<lparr>StatusCode = 200, Body = [3]\<rparr>"
  let ?sm = "(newHLSSourceInstance ''http://h/a/master.m3u8'')
         \<lparr>ur := Some (ex_url ''http'' ''h'' ''/a/hi.m3u8'')\<rparr>"
  let ?S = "segmentProcess ?env ?sm ''seg0.ts''"
  have mm: "astits_NewDemuxer ?env (Body ?rm) = [] @ Inr ?dm # [ex_pes 1 0]"
    "list_all no_PMT []" "PMT ?dm = Some ?pm" "StatusCode ?rm = 200"
    "h264_pids (ElementaryStreams ?pm) = [256]"
    by (simp_all add: ex_env_def ex_NewDemuxer_def ex_pmt_def h264_pids_def)
  have sm: "\<not> pmtDownloaded ?sm" "videoPID ?sm = None" "audioPID ?sm = None"
    "hlsSourceURLAbsolute ?env (ur ?sm) ''seg0.ts'' = Inr ?um"
    "http_Do ?env (tick ?sm) ?um = Inr ?rm"
    by (simp_all add: newHLSSourceInstance_def hlsSourceURLAbsolute_def ex_env_def ex_Parse_def
        ex_url_def IsAbs_def ex_Dir_def ex_Join_def ex_http_def)
  have "?S = (fst ?S, snd ?S)"
    by simp
  from pmt_binding [where si = ?sm and env = ?env and segmentURI = "''seg0.ts''" and u = ?um
      and res = ?rm and pre = "[]" and d = ?dm and dem = "[ex_pes 1 0]" and p = ?pm
      and r = "fst ?S" and si' = "snd ?S",
      THEN conjunct2, THEN conjunct2, THEN conjunct2, THEN conjunct2, THEN conjunct2,
      THEN conjunct2, THEN conjunct1]
    sm mm this
  have e: "videoPID (snd ?S) = Some 256 \<and> audioPID (snd ?S) = None \<and> pmtDownloaded (snd ?S)"
    by simp
  let ?Q = "queueFill ?env ?s0"
  have "fst ?Q = None"
    by code_simp
  moreover have "queue ?s0 = []"
    by (simp add: newHLSSourceInstance_def)
  ultimately have fill:
    "(if length (queue ?s0) \<le> 1 then queueFill ?env ?s0 else (None, ?s0)) = (None, snd ?Q)"
    by (simp add: prod_eq_iff)
  have q: "queue (snd ?Q) = ''dual.ts'' # []" "\<not> pmtDownloaded (snd ?Q)"
    "videoPID (snd ?Q) = None"
    "hlsSourceURLAbsolute ?env (ur (snd ?Q)) ''dual.ts'' = Inr ?ud"
    "http_Do ?env (tick (snd ?Q)) ?ud = Inr ?rd"
    by code_simp+
  from pmt_binding [where sa = ?s0 and env = ?env and sb = "snd ?Q" and el = "''dual.ts''"
      and rest = "[]" and u = ?ud and res = ?rd and pre = "[ex_pes 1 0]" and d = ?dd
      and dem = "[ex_pes 1 0]" and p = ?pd and ?v1.0 = 256 and ?v2.0 = 258 and vs = "[]"
      and n = 4,
      THEN conjunct2, THEN conjunct2, THEN conjunct2, THEN conjunct2, THEN conjunct2,
      THEN conjunct2, THEN conjunct2, THEN conjunct1]
    fill q dm
  have f: "map_option fst (run (Suc 4) ?env ?s0) = Some ErrMultipleTracks"
    by simp
  from a b c e f show ?thesis
    by simp
qed

subsection \<open>URL resolution\<close>

text \<open>
  C9. Let the base be a base URL, that is, absolute: it has a scheme, as the playlist URL
  of an attempt has when a reference is resolved against it. Resolution returns an error
  exactly when the reference cannot be parsed, and then that error. A reference that
  parses as absolute is returned as parsed. For a relative reference the result is an
  absolute URL with the base's scheme, user-info and host, and its path is the reference
  joined to the directory of the base's path. Every URL that resolution returns is
  absolute.
\<close>

theorem url_resolution:
  assumes "IsAbs B"
  shows
    "((\<exists>err. hlsSourceURLAbsolute env (Some B) R = Inl err) \<longleftrightarrow> (\<exists>err. url_Parse env R = Inl err)) \<and>
     (url_Parse env R = Inl e \<longrightarrow> hlsSourceURLAbsolute env (Some B) R = Inl e) \<and>
     (url_Parse env R = Inr u \<and> IsAbs u \<longrightarrow> hlsSourceURLAbsolute env (Some B) R = Inr u) \<and>
     (url_Parse env R = Inr u \<and> \<not> IsAbs u \<longrightarrow>
        (\<exists>res. hlsSourceURLAbsolute env (Some B) R = Inr res \<and> IsAbs res
           \<and> Scheme res = Scheme B \<and> User res = User B \<and> Host res = Host B
           \<and> Path res = gopath_Join env (gopath_Dir env (Path B)) R)) \<and>
     (\<forall>res. hlsSourceURLAbsolute env (Some B) R = Inr res \<longrightarrow> IsAbs res)"
  using assms
  by (cases "url_Parse env R") (auto simp: hlsSourceURLAbsolute_def IsAbs_def split: if_splits)

theorem url_resolution_witness:
  "hlsSourceURLAbsolute (ex_env 9 ex_granted) (Some (ex_url ''http'' ''h'' ''/a/live.m3u8''))
     ''http://cdn/seg.ts'' = Inr (ex_url ''http'' ''cdn'' ''/seg.ts'') \<and>
   hlsSourceURLAbsolute (ex_env 9 ex_granted) (Some (ex_url ''http'' ''h'' ''/a/live.m3u8''))
     ''%zz'' = Inl (ErrLib ''parse'') \<and>
   (\<exists>res. hlsSourceURLAbsolute (ex_env 9 ex_granted)
            (Some (ex_url ''http'' ''h'' ''/a/live.m3u8'')) ''seg1.ts'' = Inr res
      \<and> Scheme res = ''http'' \<and> User res = None \<and> Host res = ''h''
      \<and> Path res = ''/a/seg1.ts'' \<and> IsAbs res)"
proof -
  let ?env = "ex_env 9 ex_granted"
  let ?B = "ex_url ''http'' ''h'' ''/a/live.m3u8''"
  have p1: "url_Parse ?env ''http://cdn/seg.ts'' = Inr (ex_url ''http'' ''cdn'' ''/seg.ts'')
      \<and> IsAbs (ex_url ''http'' ''cdn'' ''/seg.ts'')"
    by (simp add: ex_env_def ex_Parse_def ex_url_def IsAbs_def)
  have p2: "url_Parse ?env ''%zz'' = Inl (ErrLib ''parse'')"
    by (simp add: ex_env_def ex_Parse_def)
  have p3: "url_Parse ?env ''seg1.ts'' = Inr (ex_url [] [] ''seg1.ts'')
      \<and> \<not> IsAbs (ex_url [] [] ''seg1.ts'')"
    by (simp add: ex_env_def ex_Parse_def ex_url_def IsAbs_def)
  have b: "Scheme ?B = ''http'' \<and> User ?B = None \<and> Host ?B = ''h'' \<and> IsAbs ?B
      \<and> gopath_Join ?env (gopath_Dir ?env (Path ?B)) ''seg1.ts'' = ''/a/seg1.ts''"
    by (simp add: ex_env_def ex_url_def IsAbs_def ex_Dir_def ex_Join_def)
  have ab: "IsAbs ?B"
    by (simp add: ex_url_def IsAbs_def)
  from url_resolution [OF ab, of ?env "''http://cdn/seg.ts''" _ "ex_url ''http'' ''cdn'' ''/seg.ts''"] p1
  have 1: "hlsSourceURLAbsolute ?env (Some ?B) ''http://cdn/seg.ts''
      = Inr (ex_url ''http'' ''cdn'' ''/seg.ts'')"
    by blast
  from url_resolution [OF ab, of ?env "''%zz''" "ErrLib ''parse''"] p2
  have 2: "hlsSourceURLAbsolute ?env (Some ?B) ''%zz'' = Inl (ErrLib ''parse'')"
    by blast
  from url_resolution [OF ab, of ?env "''seg1.ts''" _ "ex_url [] [] ''seg1.ts''"] p3 b
  have 3: "\<exists>res. hlsSourceURLAbsolute ?env (Some ?B) ''seg1.ts'' = Inr res
      \<and> Scheme res = ''http'' \<and> User res = None \<and> Host res = ''h''
      \<and> Path res = ''/a/seg1.ts'' \<and> IsAbs res"
    by auto
  from 1 2 3 show ?thesis
    by blast
qed

subsection \<open>A rejected readiness call\<close>

lemma initVideoTrack_swallows:
  assumes "NewTrackH264 env 96 (slice_of (videoSPS si)) (slice_of (videoPPS si)) = Inr t"
  shows "fst (initVideoTrack env si) = None"
  using assms by (simp add: initVideoTrack_def Let_def)

text \<open>
  C2 on the code. The router rejects the readiness call with an error. \<open>initVideoTrack\<close>
  returns no error, keeps no publish handle and leaves the encoder in place; the attempt
  goes on to encode the IDR unit, and ends only when the next playlist request fails, with
  that request's error and without a "not ready" call.
\<close>

theorem readiness_error_swallowed:
  "initVideoTrack (ex_env 9 ex_rejected)
     ((newHLSSourceInstance ''http://h/a/master.m3u8'')
        \<lparr>videoSPS := Some ex_sps, videoPPS := Some ex_pps\<rparr>)
     = (None,
        (newHLSSourceInstance ''http://h/a/master.m3u8'')
          \<lparr>videoSPS := Some ex_sps, videoPPS := Some ex_pps, videoTrack := Some (Track 0),
           videoEncoder := Some (Encoder 96), stream := None,
           trace := [EvSetReady [Track 0] ex_rejected]\<rparr>)
   \<and> outcome (run 5 (ex_env 5 ex_rejected) (newHLSSourceInstance ''http://h/a/master.m3u8''))
     = Some (ErrLib ''context canceled'',
         [EvHTTPGet (ex_url ''http'' ''h'' ''/a/master.m3u8''),
          EvHTTPGet (ex_url ''http'' ''h'' ''/a/hi.m3u8''),
          EvHTTPGet (ex_url ''http'' ''h'' ''/a/seg0.ts''),
          EvPrintPTS 0, EvPacing 0 3000 0 1000,
          EvSetReady [Track 0] ex_rejected,
          EvEncode [ex_idr] 0, EvPrintTODO [ex_idr],
          EvHTTPGet (ex_url ''http'' ''h'' ''/a/hi.m3u8'')])"
proof -
  have 1: "initVideoTrack (ex_env 9 ex_rejected)
     ((newHLSSourceInstance ''http://h/a/master.m3u8'')
        \<lparr>videoSPS := Some ex_sps, videoPPS := Some ex_pps\<rparr>)
     = (None,
        (newHLSSourceInstance ''http://h/a/master.m3u8'')
          \<lparr>videoSPS := Some ex_sps, videoPPS := Some ex_pps, videoTrack := Some (Track 0),
           videoEncoder := Some (Encoder 96), stream := None,
           trace := [EvSetReady [Track 0] ex_rejected]\<rparr>)"
    by (simp add: initVideoTrack_def Let_def ex_env_def ex_rejected_def emit_def
        newHLSSourceInstance_def)
  have 2: "outcome (run 5 (ex_env 5 ex_rejected) (newHLSSourceInstance ''http://h/a/master.m3u8''))
     = Some (ErrLib ''context canceled'',
         [EvHTTPGet (ex_url ''http'' ''h'' ''/a/master.m3u8''),
          EvHTTPGet (ex_url ''http'' ''h'' ''/a/hi.m3u8''),
          EvHTTPGet (ex_url ''http'' ''h'' ''/a/seg0.ts''),
          EvPrintPTS 0, EvPacing 0 3000 0 1000,
          EvSetReady [Track 0] ex_rejected,
          EvEncode [ex_idr] 0, EvPrintTODO [ex_idr],
          EvHTTPGet (ex_url ''http'' ''h'' ''/a/hi.m3u8'')])"
    by code_simp
  from 1 2 show ?thesis
    by simp
qed

subsection \<open>Classification of the NAL units\<close>

lemma NALUType_distinct [simp]:
  "NALUTypeSPS \<noteq> NALUTypePPS" "NALUTypePPS \<noteq> NALUTypeSPS"
  "NALUTypeSPS \<noteq> NALUTypeAccessUnitDelimiter" "NALUTypeAccessUnitDelimiter \<noteq> NALUTypeSPS"
  "NALUTypePPS \<noteq> NALUTypeAccessUnitDelimiter" "NALUTypeAccessUnitDelimiter \<noteq> NALUTypePPS"
  by (simp_all add: NALUTypeSPS_def NALUTypePPS_def NALUTypeAccessUnitDelimiter_def)

lemma nalu_step_AUD:
  "has_type nalu NALUTypeAccessUnitDelimiter \<Longrightarrow> nalu_step env si out nalu = (None, out, si)"
  by (auto simp: nalu_step_def has_type_def Let_def split: list.splits)

lemma nalu_step_forwardable:
  "forwardable nalu \<Longrightarrow>
   nalu_step env si out nalu =
     (if videoEncoder si = None then (None, out, si) else (None, out @ [nalu], si))"
  by (auto simp: nalu_step_def forwardable_def has_type_def Let_def split: list.splits)

lemma nalu_step_SPS_known:
  "has_type nalu NALUTypeSPS \<Longrightarrow> videoSPS si \<noteq> None \<Longrightarrow>
   nalu_step env si out nalu = (None, out, si)"
  by (auto simp: nalu_step_def has_type_def Let_def split: list.splits)

lemma nalu_step_PPS_known:
  "has_type nalu NALUTypePPS \<Longrightarrow> videoPPS si \<noteq> None \<Longrightarrow>
   nalu_step env si out nalu = (None, out, si)"
  by (auto simp: nalu_step_def has_type_def Let_def split: list.splits)

lemma nalu_step_SPS_first:
  "has_type nalu NALUTypeSPS \<Longrightarrow> videoSPS si = None \<Longrightarrow> videoPPS si = None \<Longrightarrow>
   nalu_step env si out nalu = (None, out, si\<lparr>videoSPS := Some nalu\<rparr>)"
  by (auto simp: nalu_step_def has_type_def Let_def split: list.splits)

lemma nalu_step_PPS_first:
  "has_type nalu NALUTypePPS \<Longrightarrow> videoPPS si = None \<Longrightarrow> videoSPS si = None \<Longrightarrow>
   nalu_step env si out nalu = (None, out, si\<lparr>videoPPS := Some nalu\<rparr>)"
  by (auto simp: nalu_step_def has_type_def Let_def split: list.splits)

lemma nalu_step_PPS_completes:
  assumes "has_type nalu NALUTypePPS" and "videoPPS si = None" and "videoSPS si = Some sps"
    and "NewTrackH264 env 96 sps nalu = Inr t"
  shows "nalu_step env si out nalu =
     (None, out,
      si\<lparr>videoPPS := Some nalu, videoTrack := Some t, videoEncoder := Some (Encoder 96),
         stream := (if Err (OnSourceStaticSetReady env [t]) = None
                    then Stream (OnSourceStaticSetReady env [t]) else stream si),
         trace := trace si @ [EvSetReady [t] (OnSourceStaticSetReady env [t])]\<rparr>)"
  using assms
  by (auto simp: nalu_step_def has_type_def Let_def
      initVideoTrack_def slice_of_def emit_def split: list.splits)

lemma nalu_step_SPS_completes:
  assumes "has_type nalu NALUTypeSPS" and "videoSPS si = None" and "videoPPS si = Some pps"
    and "NewTrackH264 env 96 nalu pps = Inr t"
  shows "nalu_step env si out nalu =
     (None, out,
      si\<lparr>videoSPS := Some nalu, videoTrack := Some t, videoEncoder := Some (Encoder 96),
         stream := (if Err (OnSourceStaticSetReady env [t]) = None
                    then Stream (OnSourceStaticSetReady env [t]) else stream si),
         trace := trace si @ [EvSetReady [t] (OnSourceStaticSetReady env [t])]\<rparr>)"
  using assms
  by (auto simp: nalu_step_def has_type_def Let_def
      initVideoTrack_def slice_of_def emit_def split: list.splits)

text \<open>
  C6. An attempt that has recorded neither SPS nor PPS classifies the NAL units AUD, SPS,
  PPS, IDR, AUD, SPS (again), slice, where SPS and PPS make a valid track. After AUD and
  SPS nothing has been sent to the router; the PPS completes the pair and the track is
  initialized there, with the one readiness call of the sequence. Over the whole sequence
  the output buffer is IDR, slice: no AUD, SPS or PPS is forwarded, and the second SPS
  changes nothing (the recorded SPS is still the first). Split into the two payloads
  AUD, SPS, PPS, IDR and AUD, SPS, slice, the first payload has IDR encoded and the second
  has slice encoded. A unit of any other type is dropped while there is no encoder and
  appended to the output buffer once there is one.
\<close>

theorem nal_filtering:
  assumes "has_type aud NALUTypeAccessUnitDelimiter" and "has_type sps NALUTypeSPS"
    and "has_type pps NALUTypePPS" and "forwardable idr"
    and "has_type aud2 NALUTypeAccessUnitDelimiter" and "has_type sps2 NALUTypeSPS"
    and "forwardable slc"
    and "videoSPS si = None" and "videoPPS si = None" and "videoEncoder si = None"
    and "NewTrackH264 env 96 sps pps = Inr t"
    and "Encode env [idr] pts1 = Inr pk1" and "Encode env [slc] pts2 = Inr pk2"
  shows
    "(let res = OnSourceStaticSetReady env [t];
          si1 = si\<lparr>videoSPS := Some sps, videoPPS := Some pps, videoTrack := Some t,
                   videoEncoder := Some (Encoder 96),
                   stream := (if Err res = None then Stream res else stream si),
                   trace := trace si @ [EvSetReady [t] res]\<rparr>;
          si2 = si1\<lparr>trace := trace si1 @ [EvEncode [idr] pts1, EvPrintTODO pk1]\<rparr>
      in nalus_loop env si [] [aud, sps] = (None, [], si\<lparr>videoSPS := Some sps\<rparr>)
       \<and> nalus_loop env si [] [aud, sps, pps] = (None, [], si1)
       \<and> nalus_loop env si [] [aud, sps, pps, idr, aud2, sps2, slc] = (None, [idr, slc], si1)
       \<and> forward env si pts1 [aud, sps, pps, idr] = (None, si2)
       \<and> forward env si2 pts2 [aud2, sps2, slc]
           = (None, si2\<lparr>trace := trace si2 @ [EvEncode [slc] pts2, EvPrintTODO pk2]\<rparr>)
       \<and> nalu_step env si out idr = (None, out, si)
       \<and> nalu_step env si1 out slc = (None, out @ [slc], si1))"
proof -
  define res where "res = OnSourceStaticSetReady env [t]"
  define si0 where "si0 = si\<lparr>videoSPS := Some sps\<rparr>"
  define si1 where "si1 = si\<lparr>videoSPS := Some sps, videoPPS := Some pps, videoTrack := Some t,
                   videoEncoder := Some (Encoder 96),
                   stream := (if Err res = None then Stream res else stream si),
                   trace := trace si @ [EvSetReady [t] res]\<rparr>"
  define si2 where "si2 = si1\<lparr>trace := trace si1 @ [EvEncode [idr] pts1, EvPrintTODO pk1]\<rparr>"
  have f1: "videoSPS si1 \<noteq> None" "videoPPS si1 \<noteq> None" "videoEncoder si1 \<noteq> None"
    by (simp_all add: si1_def)
  have f2: "videoSPS si2 \<noteq> None" "videoPPS si2 \<noteq> None" "videoEncoder si2 = Some (Encoder 96)"
    by (simp_all add: si2_def si1_def)
  have s_aud: "nalu_step env si [] aud = (None, [], si)"
    using assms(1) by (rule nalu_step_AUD)
  have s_sps: "nalu_step env si [] sps = (None, [], si0)"
    unfolding si0_def using assms(2,8,9) by (rule nalu_step_SPS_first)
  have "videoPPS si0 = None" "videoSPS si0 = Some sps"
    using assms(9) by (simp_all add: si0_def)
  from nalu_step_PPS_completes [OF assms(3) this assms(11), of "[]"]
  have s_pps: "nalu_step env si0 [] pps = (None, [], si1)"
    by (simp add: si0_def si1_def res_def)
  have s_idr: "nalu_step env si1 out' idr = (None, out' @ [idr], si1)" for out'
    using nalu_step_forwardable [OF assms(4), of env si1 out'] f1 by simp
  have s_aud2: "nalu_step env si1 out' aud2 = (None, out', si1)" for out'
    using assms(5) by (rule nalu_step_AUD)
  have s_sps2: "nalu_step env si1 out' sps2 = (None, out', si1)" for out'
    using assms(6) f1(1) by (rule nalu_step_SPS_known)
  have s_slice: "nalu_step env si1 out' slc = (None, out' @ [slc], si1)" for out'
    using nalu_step_forwardable [OF assms(7), of env si1 out'] f1 by simp
  have t_aud2: "nalu_step env si2 out' aud2 = (None, out', si2)" for out'
    using assms(5) by (rule nalu_step_AUD)
  have t_sps2: "nalu_step env si2 out' sps2 = (None, out', si2)" for out'
    using assms(6) f2(1) by (rule nalu_step_SPS_known)
  have t_slice: "nalu_step env si2 out' slc = (None, out' @ [slc], si2)" for out'
    using nalu_step_forwardable [OF assms(7), of env si2 out'] f2 by simp
  have early: "nalu_step env si out idr = (None, out, si)"
    using nalu_step_forwardable [OF assms(4), of env si out] assms(10) by simp
  have l1: "nalus_loop env si [] [aud, sps] = (None, [], si0)"
    by (simp add: s_aud s_sps)
  have l2: "nalus_loop env si [] [aud, sps, pps] = (None, [], si1)"
    by (simp add: s_aud s_sps s_pps)
  have l3: "nalus_loop env si [] [aud, sps, pps, idr, aud2, sps2, slc] = (None, [idr, slc], si1)"
    by (simp add: s_aud s_sps s_pps s_idr s_aud2 s_sps2 s_slice)
  have l4: "nalus_loop env si [] [aud, sps, pps, idr] = (None, [idr], si1)"
    by (simp add: s_aud s_sps s_pps s_idr)
  have l5: "nalus_loop env si2 [] [aud2, sps2, slc] = (None, [slc], si2)"
    by (simp add: t_aud2 t_sps2 t_slice)
  have "videoEncoder si1 = Some (Encoder 96)"
    by (simp add: si1_def)
  with l4 assms(12) have w1: "forward env si pts1 [aud, sps, pps, idr] = (None, si2)"
    by (simp add: forward_def si2_def emit_def)
  from l5 f2(3) assms(13) have w2: "forward env si2 pts2 [aud2, sps2, slc]
      = (None, si2\<lparr>trace := trace si2 @ [EvEncode [slc] pts2, EvPrintTODO pk2]\<rparr>)"
    by (simp add: forward_def emit_def)
  from l1 l2 l3 w1 w2 early s_slice [of out] show ?thesis
    unfolding Let_def si0_def si1_def si2_def res_def by blast
qed

theorem nal_filtering_witness:
  "has_type ex_aud NALUTypeAccessUnitDelimiter \<and> has_type ex_sps NALUTypeSPS
   \<and> has_type ex_pps NALUTypePPS \<and> forwardable ex_idr \<and> has_type ex_sps2 NALUTypeSPS
   \<and> forwardable ex_slice
   \<and> nalus_loop (ex_env 9 ex_granted) (newHLSSourceInstance ''http://h/a/live.m3u8'') []
        [ex_aud, ex_sps, ex_pps, ex_idr, ex_aud, ex_sps2, ex_slice]
      = (None, [ex_idr, ex_slice],
         (newHLSSourceInstance ''http://h/a/live.m3u8'')
           \<lparr>videoSPS := Some ex_sps, videoPPS := Some ex_pps, videoTrack := Some (Track 0),
            videoEncoder := Some (Encoder 96), stream := Some (StreamHandle 1),
            trace := [EvSetReady [Track 0] ex_granted]\<rparr>)
   \<and> trace (snd (forward (ex_env 9 ex_granted) (newHLSSourceInstance ''http://h/a/live.m3u8'') 0
        [ex_aud, ex_sps, ex_pps, ex_idr]))
      = [EvSetReady [Track 0] ex_granted, EvEncode [ex_idr] 0, EvPrintTODO [ex_idr]]"
proof -
  let ?env = "ex_env 9 ex_granted"
  let ?si = "newHLSSourceInstance ''http://h/a/live.m3u8''"
  have h: "has_type ex_aud NALUTypeAccessUnitDelimiter" "has_type ex_sps NALUTypeSPS"
    "has_type ex_pps NALUTypePPS" "forwardable ex_idr"
    "has_type ex_aud NALUTypeAccessUnitDelimiter" "has_type ex_sps2 NALUTypeSPS"
    "forwardable ex_slice"
    by (simp_all add: has_type_def forwardable_def ex_aud_def ex_sps_def ex_pps_def ex_idr_def
        ex_sps2_def ex_slice_def NALUTypeSPS_def NALUTypePPS_def NALUTypeAccessUnitDelimiter_def)
  have s: "videoSPS ?si = None" "videoPPS ?si = None" "videoEncoder ?si = None"
    by (simp_all add: newHLSSourceInstance_def)
  have e: "NewTrackH264 ?env 96 ex_sps ex_pps = Inr (Track 0)"
    "Encode ?env [ex_idr] 0 = Inr [ex_idr]" "Encode ?env [ex_slice] 2000000000 = Inr [ex_slice]"
    by (simp_all add: ex_env_def)
  have r: "OnSourceStaticSetReady ?env [Track 0] = ex_granted" "Err ex_granted = None"
    "Stream ex_granted = Some (StreamHandle 1)" "trace ?si = []"
    by (simp_all add: ex_env_def ex_granted_def newHLSSourceInstance_def)
  from nal_filtering [OF h s e, of "[]"] r h show ?thesis
    by (simp add: Let_def)
qed

subsection \<open>The publish handle and the router calls\<close>

lemma ready_granted_SetReady: "ready_granted e \<Longrightarrow> is_SetReady e"
  by (cases e) simp_all

lemma no_SetReady_no_granted:
  "filter is_SetReady evs = [] \<Longrightarrow> \<not> list_ex ready_granted evs"
  by (auto simp: filter_empty_conv list_ex_iff dest: ready_granted_SetReady)

lemma live_inv_emit:
  assumes "\<not> is_SetReady e" and "\<not> is_SetNotReady e"
  shows "live_inv (emit e si) = live_inv si"
proof -
  from assms(1) have "\<not> ready_granted e"
    by (auto dest: ready_granted_SetReady)
  with assms show ?thesis
    by (simp add: live_inv_def)
qed

lemma live_inv_next_tick [simp]: "live_inv (next_tick si) = live_inv si"
  by (simp add: live_inv_def)

lemma live_inv_fetch_step:
  assumes "fetch_step si si'" and "live_inv si"
  shows "live_inv si'"
proof -
  from assms(1) obtain new where new: "trace si' = trace si @ new" "list_all is_fetch_or_idle new"
    using fetch_step_fields(10) [OF assms(1)] by (auto simp: appended_def)
  have q: "\<not> is_SetReady e \<and> \<not> is_SetNotReady e \<and> \<not> ready_granted e" if "is_fetch_or_idle e" for e
    using that by (cases e) simp_all
  from new(2) q have "filter is_SetReady new = []" "filter is_SetNotReady new = []"
    "\<not> list_ex ready_granted new"
    by (auto simp: filter_empty_conv list_all_iff list_ex_iff)
  with new(1) assms(2) fetch_step_fields(5,6,9) [OF assms(1)] show ?thesis
    by (simp add: live_inv_def)
qed

lemma live_inv_fields:
  "live_inv (si\<lparr>pmtDownloaded := b, videoPID := v\<rparr>) = live_inv si"
  by (simp add: live_inv_def)

lemma initVideoTrack_live:
  assumes "initVideoTrack env si = (r, si')"
    and "filter is_SetReady (trace si) = []" and "filter is_SetNotReady (trace si) = []"
    and "stream si = None" and "videoSPS si \<noteq> None" and "videoPPS si \<noteq> None"
  shows "live_inv si'"
proof -
  from assms(2) have "\<not> list_ex ready_granted (trace si)"
    by (rule no_SetReady_no_granted)
  with assms show ?thesis
    by (auto simp: initVideoTrack_def Let_def live_inv_def split: sum.splits if_splits)
qed

lemma initVideoTrack_SPS_PPS:
  "initVideoTrack env si = (r, si') \<Longrightarrow> videoSPS si' = videoSPS si \<and> videoPPS si' = videoPPS si"
  by (auto simp: initVideoTrack_def Let_def split: sum.splits if_splits)

lemma nalu_step_live:
  assumes "nalu_step env si out nalu = (r, out', si')" and "live_inv si"
  shows "live_inv si'"
proof (cases nalu)
  case Nil
  with assms show ?thesis
    by (simp add: nalu_step_def)
next
  case (Cons b bs)
  consider (sps) "b AND 0x1F = NALUTypeSPS" "videoSPS si = None" "videoPPS si \<noteq> None"
    | (pps) "b AND 0x1F = NALUTypePPS" "videoPPS si = None" "videoSPS si \<noteq> None"
    | (sps1) "b AND 0x1F = NALUTypeSPS" "videoSPS si = None" "videoPPS si = None"
    | (pps1) "b AND 0x1F = NALUTypePPS" "videoPPS si = None" "videoSPS si = None"
    | (other) "si' = si"
    using assms(1) Cons
    by (auto simp: nalu_step_def Let_def split: if_splits)
  then show ?thesis
  proof cases
    case sps
    from sps(2) assms(2) have pre: "filter is_SetReady (trace si) = []"
      "filter is_SetNotReady (trace si) = []" "stream si = None"
      by (simp_all add: live_inv_def)
    from assms(1) Cons sps obtain r1 where
      "initVideoTrack env (si\<lparr>videoSPS := Some nalu\<rparr>) = (r1, si')"
      by (auto simp: nalu_step_def Let_def split: prod.splits option.splits)
    then show ?thesis
      by (rule initVideoTrack_live) (simp_all add: pre sps(3))
  next
    case pps
    from pps(2) assms(2) have pre: "filter is_SetReady (trace si) = []"
      "filter is_SetNotReady (trace si) = []" "stream si = None"
      by (simp_all add: live_inv_def)
    from assms(1) Cons pps obtain r1 where
      "initVideoTrack env (si\<lparr>videoPPS := Some nalu\<rparr>) = (r1, si')"
      by (auto simp: nalu_step_def Let_def split: prod.splits option.splits if_splits)
    then show ?thesis
      by (rule initVideoTrack_live) (simp_all add: pre pps(3))
  next
    case sps1
    with assms(1) Cons have "si' = si\<lparr>videoSPS := Some nalu\<rparr>"
      by (auto simp: nalu_step_def Let_def)
    with assms(2) sps1 show ?thesis
      by (auto simp: live_inv_def)
  next
    case pps1
    with assms(1) Cons have "si' = si\<lparr>videoPPS := Some nalu\<rparr>"
      by (auto simp: nalu_step_def Let_def split: if_splits)
    with assms(2) pps1 show ?thesis
      by (auto simp: live_inv_def)
  next
    case other
    with assms(2) show ?thesis by simp
  qed
qed

lemma nalus_loop_live:
  "nalus_loop env si out nalus = (r, out', si') \<Longrightarrow> live_inv si \<Longrightarrow> live_inv si'"
proof (induction nalus arbitrary: si out)
  case Nil
  then show ?case by simp
next
  case (Cons nalu nalus)
  obtain r1 out1 si1 where step: "nalu_step env si out nalu = (r1, out1, si1)"
    by (cases "nalu_step env si out nalu") auto
  from step Cons.prems(2) have a: "live_inv si1"
    by (rule nalu_step_live)
  show ?case
  proof (cases r1)
    case None
    with Cons.prems step have "nalus_loop env si1 out1 nalus = (r, out', si')"
      by simp
    then show ?thesis
      using a by (rule Cons.IH)
  next
    case (Some e)
    with Cons.prems step a show ?thesis
      by simp
  qed
qed

lemma forward_live:
  "forward env si pts nalus = (r, si') \<Longrightarrow> live_inv si \<Longrightarrow> live_inv si'"
  by (auto simp: forward_def live_inv_emit
      split: prod.splits option.splits if_splits sum.splits dest: nalus_loop_live)

lemma pacing_live:
  "pacing env tm si pts = (r, tm', si') \<Longrightarrow> live_inv si' = live_inv si"
  by (auto simp: pacing_def Let_def live_inv_emit split: if_splits)

lemma video_payload_live:
  "video_payload env tm si pes = (r, tm', si') \<Longrightarrow> live_inv si \<Longrightarrow> live_inv si'"
  by (auto simp: video_payload_def split: sum.splits option.splits prod.splits
      dest: pacing_live forward_live)

lemma data_step_live:
  "data_step env tm si d = (r, tm', si') \<Longrightarrow> live_inv si \<Longrightarrow> live_inv si'"
  by (auto simp: data_step_def live_inv_emit split: option.splits if_splits sum.splits
      dest: video_payload_live)

lemma pes_loop_live:
  "pes_loop env tm si dem = (r, tm', si') \<Longrightarrow> live_inv si \<Longrightarrow> live_inv si'"
proof (induction env tm si dem rule: pes_loop.induct)
  case (1 env tm si)
  then show ?case by simp
next
  case (2 env tm si err dem)
  then show ?case by (simp split: if_splits)
next
  case (3 env tm si d dem)
  obtain r1 tm1 si1 where step: "data_step env tm si d = (r1, tm1, si1)"
    by (cases "data_step env tm si d") auto
  from step "3.prems"(2) have a: "live_inv si1"
    by (rule data_step_live)
  show ?case
  proof (cases r1)
    case None
    with "3.prems" step have "pes_loop env tm1 si1 dem = (r, tm', si')"
      by simp
    with "3.IH" step None a show ?thesis
      by simp
  next
    case (Some e)
    with "3.prems" step a show ?thesis
      by simp
  qed
qed

lemma segmentProcess_live:
  assumes "segmentProcess env si segmentURI = (r, si')" and "live_inv si"
  shows "live_inv si'"
proof -
  from segmentProcess_cases [OF assms(1)] consider
    (early) "fetch_step si si'"
    | (pmt) si1 dem where "fetch_step si si1" "get_PMT si1 dem = (Return r, si')"
    | (pes) si1 dem si2 dem' tm where "fetch_step si si1" "get_PMT si1 dem = (Break dem', si2)"
        "pes_loop env timing0 si2 dem' = (r, tm, si')"
    by blast
  then show ?thesis
  proof cases
    case early
    then show ?thesis
      using assms(2) by (rule live_inv_fetch_step)
  next
    case pmt
    from pmt(1) assms(2) have "live_inv si1"
      by (rule live_inv_fetch_step)
    with get_PMT_fields [OF pmt(2)] show ?thesis
      by (auto simp: live_inv_fields)
  next
    case pes
    from pes(1) assms(2) have "live_inv si1"
      by (rule live_inv_fetch_step)
    with get_PMT_fields [OF pes(2)] have "live_inv si2"
      by (auto simp: live_inv_fields)
    with pes(3) show ?thesis
      by (rule pes_loop_live)
  qed
qed

lemma run_loop_live:
  "run_loop fuel env si = Some (err, si') \<Longrightarrow> live_inv si \<Longrightarrow> live_inv si'"
proof (induction fuel arbitrary: si)
  case 0
  then show ?case by simp
next
  case (Suc n)
  obtain r1 si1 where fill:
    "(if length (queue si) \<le> 1 then queueFill env si else (None, si)) = (r1, si1)"
    by (cases "if length (queue si) \<le> 1 then queueFill env si else (None, si)") auto
  then have "fetch_step si si1"
    by (auto split: if_splits dest: queueFill_fetch)
  then have a: "live_inv si1"
    using Suc.prems(2) by (rule live_inv_fetch_step)
  show ?case
  proof (cases r1)
    case (Some e)
    with Suc.prems(1) fill a show ?thesis
      by simp
  next
    case None
    show ?thesis
    proof (cases "queue si1")
      case Nil
      show ?thesis
      proof (cases "ctx_Done env (tick si1)")
        case True
        with Suc.prems(1) fill None Nil a show ?thesis
          by auto
      next
        case False
        with Suc.prems(1) fill None Nil
        have "run_loop n env (emit EvIdleWait (next_tick si1)) = Some (err, si')"
          by simp
        moreover from a have "live_inv (emit EvIdleWait (next_tick si1))"
          by (simp add: live_inv_emit)
        ultimately show ?thesis
          by (rule Suc.IH)
      qed
    next
      case (Cons el rest)
      obtain r2 si2 where seg: "segmentProcess env (si1\<lparr>queue := rest\<rparr>) el = (r2, si2)"
        by (cases "segmentProcess env (si1\<lparr>queue := rest\<rparr>) el") auto
      from a have "live_inv (si1\<lparr>queue := rest\<rparr>)"
        by (simp add: live_inv_def)
      with seg have b: "live_inv si2"
        by (rule segmentProcess_live)
      show ?thesis
      proof (cases r2)
        case (Some e)
        with Suc.prems(1) fill None Cons seg b show ?thesis
          by simp
      next
        case None2: None
        with Suc.prems(1) fill None Cons seg have "run_loop n env si2 = Some (err, si')"
          by simp
        then show ?thesis
          using b by (rule Suc.IH)
      qed
    qed
  qed
qed

text \<open>
  C5. When the run loop of an attempt has returned, whatever the error (cancellation
  included), the trace holds one "not ready" call if the router granted a readiness call
  of the attempt (no error, a publish handle, which the attempt then holds), and none
  otherwise. The "not ready" call is the last event of the attempt, and the attempt
  makes at most one readiness call.
\<close>

theorem not_ready_exactly_once:
  assumes "run fuel env (newHLSSourceInstance root) = Some (err, si)"
  shows "length (filter is_SetNotReady (trace si))
           = (if list_ex ready_granted (trace si) then 1 else 0)
       \<and> (stream si \<noteq> None \<longleftrightarrow> list_ex ready_granted (trace si))
       \<and> length (filter is_SetReady (trace si)) \<le> 1
       \<and> (filter is_SetNotReady (trace si) \<noteq> [] \<longrightarrow> last (trace si) = EvSetNotReady)"
proof -
  from assms obtain si1 where loop: "run_loop fuel env (newHLSSourceInstance root) = Some (err, si1)"
    and si: "si = run_deferred si1"
    by (auto simp: run_def split: option.splits)
  have "live_inv (newHLSSourceInstance root)"
    by (simp add: live_inv_def newHLSSourceInstance_def)
  with loop have "live_inv si1"
    by (rule run_loop_live)
  then show ?thesis
    unfolding si by (auto simp: run_deferred_def live_inv_def)
qed

theorem not_ready_exactly_once_witness:
  "outcome (run 5 (ex_env 5 ex_granted) (newHLSSourceInstance ''http://h/a/master.m3u8''))
     = Some (ErrLib ''context canceled'',
         [EvHTTPGet (ex_url ''http'' ''h'' ''/a/master.m3u8''),
          EvHTTPGet (ex_url ''http'' ''h'' ''/a/hi.m3u8''),
          EvHTTPGet (ex_url ''http'' ''h'' ''/a/seg0.ts''),
          EvPrintPTS 0, EvPacing 0 3000 0 1000,
          EvSetReady [Track 0] ex_granted,
          EvEncode [ex_idr] 0, EvPrintTODO [ex_idr],
          EvHTTPGet (ex_url ''http'' ''h'' ''/a/hi.m3u8''),
          EvSetNotReady])
   \<and> (\<exists>si. run 5 (ex_env 5 ex_granted) (newHLSSourceInstance ''http://h/a/master.m3u8'')
              = Some (ErrLib ''context canceled'', si)
          \<and> length (filter is_SetNotReady (trace si)) = 1 \<and> stream si \<noteq> None)
   \<and> (\<exists>si. run 5 (ex_env 0 ex_granted) (newHLSSourceInstance ''http://h/a/master.m3u8'')
              = Some (ErrLib ''context canceled'', si)
          \<and> length (filter is_SetNotReady (trace si)) = 0 \<and> stream si = None)"
proof -
  let ?tr = "[EvHTTPGet (ex_url ''http'' ''h'' ''/a/master.m3u8''),
          EvHTTPGet (ex_url ''http'' ''h'' ''/a/hi.m3u8''),
          EvHTTPGet (ex_url ''http'' ''h'' ''/a/seg0.ts''),
          EvPrintPTS 0, EvPacing 0 3000 0 1000,
          EvSetReady [Track 0] ex_granted,
          EvEncode [ex_idr] 0, EvPrintTODO [ex_idr],
          EvHTTPGet (ex_url ''http'' ''h'' ''/a/hi.m3u8''),
          EvSetNotReady]"
  have o1: "outcome (run 5 (ex_env 5 ex_granted) (newHLSSourceInstance ''http://h/a/master.m3u8''))
      = Some (ErrLib ''context canceled'', ?tr)"
    by code_simp
  then obtain si1 where r1:
    "run 5 (ex_env 5 ex_granted) (newHLSSourceInstance ''http://h/a/master.m3u8'')
       = Some (ErrLib ''context canceled'', si1)" "trace si1 = ?tr"
    by (auto simp: outcome_def split: option.splits)
  have g1: "list_ex ready_granted ?tr"
    by (simp add: ex_granted_def)
  from not_ready_exactly_once [OF r1(1)] r1(2) g1
  have c1: "length (filter is_SetNotReady (trace si1)) = 1 \<and> stream si1 \<noteq> None"
    by simp
  have o2: "outcome (run 5 (ex_env 0 ex_granted) (newHLSSourceInstance ''http://h/a/master.m3u8''))
      = Some (ErrLib ''context canceled'', [EvHTTPGet (ex_url ''http'' ''h'' ''/a/master.m3u8'')])"
    by code_simp
  then obtain si2 where r2:
    "run 5 (ex_env 0 ex_granted) (newHLSSourceInstance ''http://h/a/master.m3u8'')
       = Some (ErrLib ''context canceled'', si2)"
    "trace si2 = [EvHTTPGet (ex_url ''http'' ''h'' ''/a/master.m3u8'')]"
    by (auto simp: outcome_def split: option.splits)
  from not_ready_exactly_once [OF r2(1)] r2(2)
  have c2: "length (filter is_SetNotReady (trace si2)) = 0 \<and> stream si2 = None"
    by simp
  from o1 r1(1) c1 r2(1) c2 show ?thesis
    by blast
qed

subsection \<open>An attempt without a video stream\<close>

lemma no_video_fetch_step: "fetch_step si si' \<Longrightarrow> no_video si \<Longrightarrow> no_video si'"
  by (simp add: no_video_def fetch_step_fields)

lemma data_step_no_video: "no_video si \<Longrightarrow> data_step env tm si d = (None, tm, si)"
  by (simp add: data_step_def no_video_def split: option.splits)

lemma pes_loop_no_video: "no_video si \<Longrightarrow> pes_loop env tm si dem = (demux_error dem, tm, si)"
  by (induction dem rule: demux_error.induct) (simp_all add: data_step_no_video)

lemma segmentProcess_no_video:
  assumes "no_video si"
  shows "segmentProcess env si segmentURI =
     (case hlsSourceURLAbsolute env (ur si) segmentURI of
        Inl err \<Rightarrow> (Some err, si)
      | Inr u \<Rightarrow>
          (case http_Do env (tick si) u of
             Inl err \<Rightarrow> (Some err, emit (EvHTTPGet u) (next_tick si))
           | Inr res \<Rightarrow>
               if StatusCode res \<noteq> 200
               then (Some (ErrBadStatusCode (StatusCode res)), emit (EvHTTPGet u) (next_tick si))
               else (demux_error (astits_NewDemuxer env (Body res)),
                     emit (EvHTTPGet u) (next_tick si))))"
proof -
  have "no_video (emit (EvHTTPGet u) (next_tick si))" for u
    using assms by (simp add: no_video_def)
  then have "pes_loop env timing0 (emit (EvHTTPGet u) (next_tick si)) dem
      = (demux_error dem, timing0, emit (EvHTTPGet u) (next_tick si))" for u dem
    by (rule pes_loop_no_video)
  moreover have "get_PMT (emit (EvHTTPGet u) (next_tick si)) dem
      = (Break dem, emit (EvHTTPGet u) (next_tick si))" for u dem
    using assms by (simp add: get_PMT_def no_video_def)
  ultimately show ?thesis
    by (simp add: segmentProcess_def http_GET_def split: sum.splits)
qed

lemma segmentProcess_no_video_fetch:
  assumes "no_video si" and "segmentProcess env si segmentURI = (r, si')"
  shows "fetch_step si si'"
proof -
  have "fetch_step si (emit (EvHTTPGet u) (next_tick si))" for u
    by (rule fetch_step_trans [OF fetch_step_next_tick fetch_step_emit]) simp
  with assms(2) show ?thesis
    unfolding segmentProcess_no_video [OF assms(1)]
    by (auto split: sum.splits if_splits)
qed

lemma run_loop_no_video:
  "run_loop fuel env si = Some (err, si') \<Longrightarrow> no_video si \<Longrightarrow> fetch_step si si'"
proof (induction fuel arbitrary: si)
  case 0
  then show ?case by simp
next
  case (Suc n)
  obtain r1 si1 where fill:
    "(if length (queue si) \<le> 1 then queueFill env si else (None, si)) = (r1, si1)"
    by (cases "if length (queue si) \<le> 1 then queueFill env si else (None, si)") auto
  then have f1: "fetch_step si si1"
    by (auto split: if_splits dest: queueFill_fetch)
  then have n1: "no_video si1"
    using Suc.prems(2) by (rule no_video_fetch_step)
  show ?case
  proof (cases r1)
    case (Some e)
    with Suc.prems(1) fill f1 show ?thesis
      by simp
  next
    case None
    show ?thesis
    proof (cases "queue si1")
      case Nil
      show ?thesis
      proof (cases "ctx_Done env (tick si1)")
        case True
        with Suc.prems(1) fill None Nil have "si' = next_tick si1"
          by simp
        with f1 show ?thesis
          by (auto intro: fetch_step_trans [OF _ fetch_step_next_tick])
      next
        case False
        let ?si2 = "emit EvIdleWait (next_tick si1)"
        have f2: "fetch_step si1 ?si2"
          by (rule fetch_step_trans [OF fetch_step_next_tick fetch_step_emit]) simp
        from Suc.prems(1) fill None Nil False have "run_loop n env ?si2 = Some (err, si')"
          by simp
        moreover from f2 n1 have "no_video ?si2"
          by (rule no_video_fetch_step)
        ultimately have "fetch_step ?si2 si'"
          by (rule Suc.IH)
        with f1 f2 show ?thesis
          by (blast intro: fetch_step_trans)
      qed
    next
      case (Cons el rest)
      let ?si2 = "si1\<lparr>queue := rest\<rparr>"
      have f2: "fetch_step si1 ?si2"
        by (rule fetch_step_queue)
      from f2 n1 have n2: "no_video ?si2"
        by (rule no_video_fetch_step)
      obtain r3 si3 where seg: "segmentProcess env ?si2 el = (r3, si3)"
        by (cases "segmentProcess env ?si2 el") auto
      from n2 seg have f3: "fetch_step ?si2 si3"
        by (rule segmentProcess_no_video_fetch)
      from f3 n2 have n3: "no_video si3"
        by (rule no_video_fetch_step)
      from f1 f2 f3 have f: "fetch_step si si3"
        by (blast intro: fetch_step_trans)
      show ?thesis
      proof (cases r3)
        case (Some e)
        with Suc.prems(1) fill None Cons seg f show ?thesis
          by simp
      next
        case None3: None
        with Suc.prems(1) fill None Cons seg have "run_loop n env si3 = Some (err, si')"
          by simp
        then have "fetch_step si3 si'"
          using n3 by (rule Suc.IH)
        with f show ?thesis
          by (rule fetch_step_trans)
      qed
    qed
  qed
qed

lemma run_no_video:
  assumes "run fuel env si = Some (err, si')" and "no_video si" and "stream si = None"
  shows "fetch_step si si'"
proof -
  from assms(1) obtain si1 where loop: "run_loop fuel env si = Some (err, si1)"
    and si': "si' = run_deferred si1"
    by (auto simp: run_def split: option.splits)
  from loop assms(2) have f: "fetch_step si si1"
    by (rule run_loop_no_video)
  with assms(3) have "stream si1 = None"
    by (simp add: fetch_step_fields)
  with si' f show ?thesis
    by (simp add: run_deferred_def)
qed

text \<open>
  C10. The first PMT of an attempt has no H.264 entry: the flag is set and no PID is
  bound. From then on every demuxed unit is skipped and leaves the attempt as it is, so
  that the loop over a segment's data returns only what the demuxer itself reports, and
  \<open>segmentProcess\<close> and \<open>run\<close> only fetch and idle: the flag stays set, the PIDs stay
  unbound, no publish handle is held, and the trace gains nothing but requests and idle
  waits, hence no readiness call.
\<close>

theorem no_video_attempt_idles:
  "(\<not> pmtDownloaded si \<and> videoPID si = None \<and> audioPID si = None \<and> list_all no_PMT pre
      \<and> PMT d = Some p \<and> h264_pids (ElementaryStreams p) = [] \<longrightarrow>
      get_PMT si (pre @ Inr d # dem) = (Break dem, si\<lparr>pmtDownloaded := True\<rparr>)
      \<and> no_video (si\<lparr>pmtDownloaded := True\<rparr>)) \<and>
   (no_video si \<longrightarrow>
      data_step env tm si x = (None, tm, si)
      \<and> pes_loop env tm si dem = (demux_error dem, tm, si)) \<and>
   (no_video si \<and> segmentProcess env si segmentURI = (r, si') \<longrightarrow>
      no_video si' \<and> stream si' = stream si \<and> fetch_step si si') \<and>
   (no_video si \<and> stream si = None \<and> run fuel env si = Some (err, si'') \<longrightarrow>
      no_video si'' \<and> stream si'' = None \<and> fetch_step si si''
      \<and> filter is_SetReady (trace si'') = filter is_SetReady (trace si))"
proof -
  have 1: "get_PMT si (pre @ Inr d # dem) = (Break dem, si\<lparr>pmtDownloaded := True\<rparr>)
      \<and> no_video (si\<lparr>pmtDownloaded := True\<rparr>)"
    if "\<not> pmtDownloaded si" "videoPID si = None" "audioPID si = None" "list_all no_PMT pre"
      "PMT d = Some p" "h264_pids (ElementaryStreams p) = []"
    using get_PMT_first [OF that(1,2,4,5), of dem] that(2,3,6)
    by (simp add: no_video_def)
  have 3: "no_video si' \<and> stream si' = stream si \<and> fetch_step si si'"
    if "no_video si" "segmentProcess env si segmentURI = (r, si')"
    using segmentProcess_no_video_fetch [OF that] that(1)
    by (simp add: no_video_fetch_step fetch_step_fields)
  have q: "\<not> is_SetReady e" if "is_fetch_or_idle e" for e
    using that by (cases e) simp_all
  have 4: "no_video si'' \<and> stream si'' = None \<and> fetch_step si si''
      \<and> filter is_SetReady (trace si'') = filter is_SetReady (trace si)"
    if "no_video si" "stream si = None" "run fuel env si = Some (err, si'')"
  proof -
    from that have f: "fetch_step si si''"
      by (simp add: run_no_video)
    from fetch_step_fields(10) [OF f] q
    have "filter is_SetReady (trace si'') = filter is_SetReady (trace si)"
      by (rule appended_filter)
    with f that(1,2) show ?thesis
      by (simp add: no_video_fetch_step fetch_step_fields)
  qed
  from 1 3 4 show ?thesis
    by (simp add: data_step_no_video pes_loop_no_video)
qed

theorem no_video_attempt_idles_witness:
  "get_PMT (newHLSSourceInstance ''http://h/a/radio.m3u8'') [ex_pmt_audio, ex_pes 1 0]
     = (Break [ex_pes 1 0], (newHLSSourceInstance ''http://h/a/radio.m3u8'')\<lparr>pmtDownloaded := True\<rparr>)
   \<and> outcome (run 5 (ex_env 4 ex_granted) (newHLSSourceInstance ''http://h/a/radio.m3u8''))
     = Some (ErrLib ''context canceled'',
         [EvHTTPGet (ex_url ''http'' ''h'' ''/a/radio.m3u8''),
          EvHTTPGet (ex_url ''http'' ''h'' ''/a/audio.ts''),
          EvHTTPGet (ex_url ''http'' ''h'' ''/a/radio.m3u8''),
          EvHTTPGet (ex_url ''http'' ''h'' ''/a/audio.ts''),
          EvHTTPGet (ex_url ''http'' ''h'' ''/a/radio.m3u8'')])
   \<and> (\<exists>si. run 5 (ex_env 4 ex_granted)
               ((newHLSSourceInstance ''http://h/a/radio.m3u8'')\<lparr>pmtDownloaded := True\<rparr>)
              = Some (ErrLib ''context canceled'', si)
          \<and> no_video si \<and> stream si = None \<and> filter is_SetReady (trace si) = [])"
proof -
  let ?si = "newHLSSourceInstance ''http://h/a/radio.m3u8''"
  let ?sj = "?si\<lparr>pmtDownloaded := True\<rparr>"
  let ?d = "\<lparr>PID = 4096,
          PMT = Some \<lparr>ElementaryStreams =
                   [\<lparr>StreamType = StreamTypeAACAudio, ElementaryPID = 257 :: 16 word\<rparr>]\<rparr>,
          PES = None :: pes_data option\<rparr>"
  let ?p = "\<lparr>ElementaryStreams =
                   [\<lparr>StreamType = StreamTypeAACAudio, ElementaryPID = 257 :: 16 word\<rparr>]\<rparr>"
  have h1: "\<not> pmtDownloaded ?si \<and> videoPID ?si = None \<and> audioPID ?si = None
      \<and> list_all no_PMT [] \<and> PMT ?d = Some ?p \<and> h264_pids (ElementaryStreams ?p) = []"
    by (simp add: newHLSSourceInstance_def h264_pids_def)
  from no_video_attempt_idles [where si = ?si and pre = "[]" and d = ?d and p = ?p
      and dem = "[ex_pes 1 0]"] h1
  have 1: "get_PMT ?si [ex_pmt_audio, ex_pes 1 0] = (Break [ex_pes 1 0], ?sj)"
    by (simp add: ex_pmt_audio_def)
  have 2: "outcome (run 5 (ex_env 4 ex_granted) ?si)
     = Some (ErrLib ''context canceled'',
         [EvHTTPGet (ex_url ''http'' ''h'' ''/a/radio.m3u8''),
          EvHTTPGet (ex_url ''http'' ''h'' ''/a/audio.ts''),
          EvHTTPGet (ex_url ''http'' ''h'' ''/a/radio.m3u8''),
          EvHTTPGet (ex_url ''http'' ''h'' ''/a/audio.ts''),
          EvHTTPGet (ex_url ''http'' ''h'' ''/a/radio.m3u8'')])"
    by code_simp
  have "outcome (run 5 (ex_env 4 ex_granted) ?sj)
     = Some (ErrLib ''context canceled'',
         [EvHTTPGet (ex_url ''http'' ''h'' ''/a/radio.m3u8''),
          EvHTTPGet (ex_url ''http'' ''h'' ''/a/audio.ts''),
          EvHTTPGet (ex_url ''http'' ''h'' ''/a/radio.m3u8''),
          EvHTTPGet (ex_url ''http'' ''h'' ''/a/audio.ts''),
          EvHTTPGet (ex_url ''http'' ''h'' ''/a/radio.m3u8'')])"
    by code_simp
  then obtain sk where r: "run 5 (ex_env 4 ex_granted) ?sj = Some (ErrLib ''context canceled'', sk)"
    by (auto simp: outcome_def split: option.splits)
  have h3: "no_video ?sj \<and> stream ?sj = None \<and> trace ?sj = []"
    by (simp add: no_video_def newHLSSourceInstance_def)
  from no_video_attempt_idles [where si = ?sj and fuel = 5 and env = "ex_env 4 ex_granted"
      and err = "ErrLib ''context canceled''" and si'' = sk] h3 r
  have 3: "no_video sk \<and> stream sk = None \<and> filter is_SetReady (trace sk) = []"
    by simp
  from 1 2 r 3 show ?thesis
    by blast
qed

subsection \<open>The timing reference\<close>

lemma pacing_reference:
  assumes "pacing env tm si pts = (r, tm', si')"
  shows "pacing_of (trace si') = pacing_of (trace si) @ [(videoStartPTS tm', videoStartRTC tm', pts)]
     \<and> videoInitialized tm' \<and> (videoInitialized tm \<longrightarrow> tm' = tm)
     \<and> (\<not> videoInitialized tm \<longrightarrow> videoStartPTS tm' = pts)"
  using assms
  by (auto simp: pacing_def Let_def pacing_of_append split: if_splits)

lemma nalus_loop_pacing_of:
  assumes "nalus_loop env si out nalus = (r, out', si')"
  shows "pacing_of (trace si') = pacing_of (trace si)"
proof -
  have "e \<noteq> EvPacing a b p n" if "is_SetReady e" for e a b p n
    using that by auto
  with nalus_loop_appended [OF assms] show ?thesis
    by (rule appended_pacing_of)
qed

lemma forward_pacing_of:
  "forward env si pts nalus = (r, si') \<Longrightarrow> pacing_of (trace si') = pacing_of (trace si)"
  by (auto simp: forward_def pacing_of_append
      split: prod.splits option.splits if_splits sum.splits dest: nalus_loop_pacing_of)

lemma video_payload_reference:
  assumes "video_payload env tm si pes = (r, tm', si')"
  shows "(tm' = tm \<and> pacing_of (trace si') = pacing_of (trace si))
     \<or> (\<exists>pts. pacing_of (trace si')
                = pacing_of (trace si) @ [(videoStartPTS tm', videoStartRTC tm', pts)]
           \<and> videoInitialized tm' \<and> (videoInitialized tm \<longrightarrow> tm' = tm)
           \<and> (\<not> videoInitialized tm \<longrightarrow> videoStartPTS tm' = pts))"
proof (cases "h264_DecodeAnnexB env (Data pes)")
  case (Inl err)
  with assms show ?thesis
    by (simp add: video_payload_def)
next
  case (Inr nalus)
  show ?thesis
  proof (cases "case OptionalHeader pes of None \<Rightarrow> None | Some h \<Rightarrow> PTS h")
    case None
    with assms Inr show ?thesis
      by (simp add: video_payload_def)
  next
    case (Some cr)
    obtain r1 tm1 si1 where p: "pacing env tm si (pts_of (Base cr)) = (r1, tm1, si1)"
      by (cases "pacing env tm si (pts_of (Base cr))") auto
    note ref = pacing_reference [OF p]
    show ?thesis
    proof (cases r1)
      case e: (Some e)
      with assms Inr Some p have "tm' = tm1" "si' = si1"
        by (simp_all add: video_payload_def)
      with ref show ?thesis
        by blast
    next
      case None
      obtain r2 si2 where f: "forward env si1 (pts_of (Base cr)) nalus = (r2, si2)"
        by (cases "forward env si1 (pts_of (Base cr)) nalus") auto
      with assms Inr Some p None have "tm' = tm1" "si' = si2"
        by (simp_all add: video_payload_def)
      with ref forward_pacing_of [OF f] show ?thesis
        by auto
    qed
  qed
qed

lemma data_step_reference:
  assumes "data_step env tm si d = (r, tm', si')"
  shows "(tm' = tm \<and> pacing_of (trace si') = pacing_of (trace si))
     \<or> (\<exists>pts. pacing_of (trace si')
                = pacing_of (trace si) @ [(videoStartPTS tm', videoStartRTC tm', pts)]
           \<and> videoInitialized tm' \<and> (videoInitialized tm \<longrightarrow> tm' = tm)
           \<and> (\<not> videoInitialized tm \<longrightarrow> videoStartPTS tm' = pts))"
proof (cases "\<exists>pes. PES d = Some pes \<and> videoPID si = Some (PID d)")
  case True
  with assms obtain pes where "video_payload env tm si pes = (r, tm', si')"
    by (auto simp: data_step_def)
  then show ?thesis
    by (rule video_payload_reference)
next
  case False
  with assms have "tm' = tm \<and> pacing_of (trace si') = pacing_of (trace si)"
    by (auto simp: data_step_def pacing_of_append split: option.splits if_splits sum.splits)
  then show ?thesis
    by blast
qed

lemma pes_loop_reference:
  "pes_loop env tm si dem = (r, tm', si') \<Longrightarrow>
   \<exists>ps. pacing_of (trace si') = pacing_of (trace si) @ ps
     \<and> (videoInitialized tm \<longrightarrow> tm' = tm \<and> uses_reference tm ps)
     \<and> (\<not> videoInitialized tm \<longrightarrow> single_reference ps)"
proof (induction env tm si dem rule: pes_loop.induct)
  case (1 env tm si)
  then show ?case by (simp add: uses_reference_def)
next
  case (2 env tm si err dem)
  then show ?case by (auto simp: uses_reference_def split: if_splits)
next
  case (3 env tm si d dem)
  obtain r1 tm1 si1 where step: "data_step env tm si d = (r1, tm1, si1)"
    by (cases "data_step env tm si d") auto
  have rest: "\<exists>ps. pacing_of (trace si') = pacing_of (trace si1) @ ps
     \<and> (videoInitialized tm1 \<longrightarrow> tm' = tm1 \<and> uses_reference tm1 ps)
     \<and> (\<not> videoInitialized tm1 \<longrightarrow> single_reference ps)"
  proof (cases r1)
    case None
    with "3.prems" step have "pes_loop env tm1 si1 dem = (r, tm', si')"
      by simp
    with "3.IH" step None show ?thesis
      by simp
  next
    case (Some e)
    with "3.prems" step have "tm' = tm1" "si' = si1"
      by simp_all
    then show ?thesis
      by (simp add: uses_reference_def)
  qed
  then obtain ps where ps: "pacing_of (trace si') = pacing_of (trace si1) @ ps"
    "videoInitialized tm1 \<longrightarrow> tm' = tm1 \<and> uses_reference tm1 ps"
    "\<not> videoInitialized tm1 \<longrightarrow> single_reference ps"
    by blast
  from data_step_reference [OF step] show ?case
  proof
    assume "tm1 = tm \<and> pacing_of (trace si1) = pacing_of (trace si)"
    with ps show ?thesis
      by auto
  next
    assume "\<exists>pts. pacing_of (trace si1)
                = pacing_of (trace si) @ [(videoStartPTS tm1, videoStartRTC tm1, pts)]
           \<and> videoInitialized tm1 \<and> (videoInitialized tm \<longrightarrow> tm1 = tm)
           \<and> (\<not> videoInitialized tm \<longrightarrow> videoStartPTS tm1 = pts)"
    then obtain pts where q:
      "pacing_of (trace si1) = pacing_of (trace si) @ [(videoStartPTS tm1, videoStartRTC tm1, pts)]"
      "videoInitialized tm1" "videoInitialized tm \<longrightarrow> tm1 = tm"
      "\<not> videoInitialized tm \<longrightarrow> videoStartPTS tm1 = pts"
      by blast
    from ps(2) q(2) have u: "tm' = tm1" "uses_reference tm1 ps"
      by simp_all
    let ?ps = "(videoStartPTS tm1, videoStartRTC tm1, pts) # ps"
    from ps(1) q(1) have a: "pacing_of (trace si') = pacing_of (trace si) @ ?ps"
      by simp
    from u q(3) have b: "videoInitialized tm \<longrightarrow> tm' = tm \<and> uses_reference tm ?ps"
      by (auto simp: uses_reference_def)
    from u q(4) have c: "\<not> videoInitialized tm \<longrightarrow> single_reference ?ps"
      by (auto simp: uses_reference_def)
    from a b c show ?thesis
      by blast
  qed
qed

lemma segmentProcess_reference:
  assumes "segmentProcess env si segmentURI = (r, si')"
  shows "\<exists>ps. pacing_of (trace si') = pacing_of (trace si) @ ps \<and> single_reference ps"
proof -
  have q: "e \<noteq> EvPacing a b p n" if "is_fetch_or_idle e" for e a b p n
    using that by auto
  have fetch: "pacing_of (trace sb) = pacing_of (trace sa)" if "fetch_step sa sb" for sa sb
    using fetch_step_fields(10) [OF that] q by (rule appended_pacing_of)
  from segmentProcess_cases [OF assms] consider
    (early) "fetch_step si si'"
    | (pmt) si1 dem where "fetch_step si si1" "get_PMT si1 dem = (Return r, si')"
    | (pes) si1 dem si2 dem' tm where "fetch_step si si1" "get_PMT si1 dem = (Break dem', si2)"
        "pes_loop env timing0 si2 dem' = (r, tm, si')"
    by blast
  then show ?thesis
  proof cases
    case early
    then show ?thesis
      by (simp add: fetch)
  next
    case pmt
    from get_PMT_fields [OF pmt(2)] have "trace si' = trace si1"
      by auto
    with fetch [OF pmt(1)] show ?thesis
      by simp
  next
    case pes
    from get_PMT_fields [OF pes(2)] have "trace si2 = trace si1"
      by auto
    with fetch [OF pes(1)] have "pacing_of (trace si2) = pacing_of (trace si)"
      by simp
    with pes_loop_reference [OF pes(3)] show ?thesis
      by (simp add: timing0_def)
  qed
qed

text \<open>
  C3 as stated fails. The attempt on \<open>live.m3u8\<close> processes two segments. The pacing
  decisions of the first are computed from the pair (0, 2000); the decision of the second
  is computed from a new pair (2000000000, 8000), taken at the first payload of that
  segment.
\<close>

theorem timing_reference_reestablished:
  "map_option (pacing_of \<circ> snd)
     (outcome (run 10 (ex_env 11 ex_granted) (newHLSSourceInstance ''http://h/a/live.m3u8'')))
     = Some [(0, 2000, 0), (0, 2000, 1000000000), (2000000000, 8000, 2000000000)]
   \<and> \<not> single_reference [(0, 2000, 0), (0, 2000, 1000000000), (2000000000, 8000, 2000000000)]"
proof -
  have "map_option (pacing_of \<circ> snd)
     (outcome (run 10 (ex_env 11 ex_granted) (newHLSSourceInstance ''http://h/a/live.m3u8'')))
     = Some [(0, 2000, 0), (0, 2000, 1000000000), (2000000000, 8000, 2000000000)]"
    by code_simp
  then show ?thesis
    by simp
qed

text \<open>
  C3, amended. The timing reference is established at most once per segment, that is, per
  call of \<open>segmentProcess\<close>, whose local variables hold it: the first pacing decision of
  the call takes its own payload's PTS and the instant of that moment as the reference,
  and every later pacing decision of the call is computed from that same pair.
\<close>

theorem timing_reference_per_segment:
  assumes "segmentProcess env si segmentURI = (r, si')"
  shows "\<exists>ps. pacing_of (trace si') = pacing_of (trace si) @ ps \<and> single_reference ps"
  using assms by (rule segmentProcess_reference)

theorem timing_reference_per_segment_witness:
  "pacing_of (trace (snd (segmentProcess (ex_env 11 ex_granted)
       ((newHLSSourceInstance ''http://h/a/live.m3u8'')
          \<lparr>ur := Some (ex_url ''http'' ''h'' ''/a/live.m3u8'')\<rparr>) ''seg1.ts'')))
     = [(0, 1000, 0), (0, 1000, 1000000000)]
   \<and> single_reference [(0, 1000, 0), (0, 1000, 1000000000)]"
proof -
  let ?si = "(newHLSSourceInstance ''http://h/a/live.m3u8'')
               \<lparr>ur := Some (ex_url ''http'' ''h'' ''/a/live.m3u8'')\<rparr>"
  let ?res = "segmentProcess (ex_env 11 ex_granted) ?si ''seg1.ts''"
  have e: "pacing_of (trace (snd ?res)) = [(0, 1000, 0), (0, 1000, 1000000000)]"
    by code_simp
  have "?res = (fst ?res, snd ?res)"
    by simp
  from timing_reference_per_segment [OF this] e show ?thesis
    by (simp add: newHLSSourceInstance_def)
qed

subsection \<open>Pacing comes before classification\<close>

lemma initVideoTrack_encoder:
  "initVideoTrack env si = (r, si') \<Longrightarrow> videoEncoder si \<noteq> None \<Longrightarrow> videoEncoder si' \<noteq> None"
  by (auto simp: initVideoTrack_def Let_def split: sum.splits if_splits)

lemma nalu_step_encoder:
  assumes "nalu_step env si out nalu = (r, out', si')"
    and "out \<noteq> [] \<longrightarrow> videoEncoder si \<noteq> None"
  shows "out' \<noteq> [] \<longrightarrow> videoEncoder si' \<noteq> None"
  using assms
  by (auto simp: nalu_step_def Let_def
      split: list.splits if_splits prod.splits option.splits
      dest: initVideoTrack_encoder)

lemma nalus_loop_encoder:
  "nalus_loop env si out nalus = (r, out', si') \<Longrightarrow>
   (out \<noteq> [] \<longrightarrow> videoEncoder si \<noteq> None) \<Longrightarrow> (out' \<noteq> [] \<longrightarrow> videoEncoder si' \<noteq> None)"
proof (induction nalus arbitrary: si out)
  case Nil
  then show ?case by simp
next
  case (Cons nalu nalus)
  obtain r1 out1 si1 where step: "nalu_step env si out nalu = (r1, out1, si1)"
    by (cases "nalu_step env si out nalu") auto
  from step Cons.prems(2) have a: "out1 \<noteq> [] \<longrightarrow> videoEncoder si1 \<noteq> None"
    by (rule nalu_step_encoder)
  show ?case
  proof (cases r1)
    case None
    with Cons.prems step have "nalus_loop env si1 out1 nalus = (r, out', si')"
      by simp
    then show ?thesis
      using a by (rule Cons.IH)
  next
    case (Some e)
    with Cons.prems step a show ?thesis
      by simp
  qed
qed

lemma nalus_loop_Encode:
  assumes "nalus_loop env si out nalus = (r, out', si')"
  shows "filter is_Encode (trace si') = filter is_Encode (trace si)"
proof -
  have "\<not> is_Encode e" if "is_SetReady e" for e
    using that by (cases e) simp_all
  with nalus_loop_appended [OF assms] show ?thesis
    by (rule appended_filter)
qed

lemma pacing_Encode:
  "pacing env tm si pts = (r, tm', si') \<Longrightarrow> filter is_Encode (trace si') = filter is_Encode (trace si)"
  by (auto simp: pacing_def Let_def split: if_splits)

lemma pacing_wait:
  assumes "pacing env tm si pts = (None, tm1, si1)" and "videoInitialized tm"
    and "pts - videoStartPTS tm > time_Since (time_Now env (tick si)) (videoStartRTC tm)"
  shows "trace si1 = trace si @
     [EvPrintPTS pts,
      EvPacing (videoStartPTS tm) (videoStartRTC tm) pts
        (time_Since (time_Now env (tick si)) (videoStartRTC tm)),
      EvWait (pts - videoStartPTS tm - time_Since (time_Now env (tick si)) (videoStartRTC tm))]"
  using assms by (auto simp: pacing_def Let_def split: if_splits)

text \<open>
  C4 as stated fails. In the segment \<open>seg1.ts\<close> the second payload holds only an
  access-unit delimiter, so its output buffer is empty and nothing is encoded for it; its
  PTS is one second after the reference, and the attempt waits for it all the same.
\<close>

theorem empty_payload_waits:
  "h264_DecodeAnnexB (ex_env 11 ex_granted) [3] = Inr [ex_aud]
   \<and> fst (snd (nalus_loop (ex_env 11 ex_granted)
        ((newHLSSourceInstance ''http://h/a/live.m3u8'')\<lparr>videoEncoder := Some (Encoder 96)\<rparr>)
        [] [ex_aud])) = []
   \<and> trace (snd (segmentProcess (ex_env 11 ex_granted)
        ((newHLSSourceInstance ''http://h/a/live.m3u8'')
           \<lparr>ur := Some (ex_url ''http'' ''h'' ''/a/live.m3u8'')\<rparr>) ''seg1.ts''))
      = [EvHTTPGet (ex_url ''http'' ''h'' ''/a/seg1.ts''),
         EvPrintPTS 0, EvPacing 0 1000 0 1000,
         EvSetReady [Track 0] ex_granted, EvEncode [ex_idr] 0, EvPrintTODO [ex_idr],
         EvPrintPTS 1000000000, EvPacing 0 1000 1000000000 2000, EvWait 999998000]"
  by code_simp

text \<open>
  C4, amended. A video payload is paced before its NAL units are classified, from its PTS
  alone: once the reference is set, a payload whose PTS is ahead of the elapsed time
  waits (unless the attempt is cancelled), whatever it contains. Encoding does depend on
  the classification: a payload whose output buffer is empty is finished without an
  encode call, and one whose buffer is not empty has exactly that buffer encoded.
\<close>

theorem encode_only_nonempty:
  assumes "h264_DecodeAnnexB env (Data pes) = Inr nalus"
    and "OptionalHeader pes = Some h" and "PTS h = Some cr"
    and "pacing env tm si (pts_of (Base cr)) = (None, tm1, si1)"
    and "nalus_loop env si1 [] nalus = (None, out, si2)"
  shows "(out = [] \<longrightarrow>
            video_payload env tm si pes = (None, tm1, si2)
            \<and> filter is_Encode (trace si2) = filter is_Encode (trace si))
     \<and> (out \<noteq> [] \<longrightarrow>
            filter is_Encode (trace (snd (snd (video_payload env tm si pes))))
              = filter is_Encode (trace si) @ [EvEncode out (pts_of (Base cr))])
     \<and> (videoInitialized tm
          \<and> pts_of (Base cr) - videoStartPTS tm
              > time_Since (time_Now env (tick si)) (videoStartRTC tm) \<longrightarrow>
            EvWait (pts_of (Base cr) - videoStartPTS tm
                    - time_Since (time_Now env (tick si)) (videoStartRTC tm))
              \<in> set (trace si2))"
proof -
  let ?pts = "pts_of (Base cr)"
  have vp: "video_payload env tm si pes =
      (case forward env si1 ?pts nalus of (r, s) \<Rightarrow> (r, tm1, s))"
    using assms(1-4) by (simp add: video_payload_def)
  have enc: "filter is_Encode (trace si2) = filter is_Encode (trace si)"
    using nalus_loop_Encode [OF assms(5)] pacing_Encode [OF assms(4)] by simp
  have 1: "video_payload env tm si pes = (None, tm1, si2)" if "out = []"
    using that assms(5) vp by (simp add: forward_def)
  have 2: "filter is_Encode (trace (snd (snd (video_payload env tm si pes))))
      = filter is_Encode (trace si) @ [EvEncode out ?pts]" if "out \<noteq> []"
  proof -
    from nalus_loop_encoder [OF assms(5)] that obtain e where "videoEncoder si2 = Some e"
      by auto
    with that assms(5) vp enc show ?thesis
      by (simp add: forward_def split: sum.splits)
  qed
  have 3: "EvWait (?pts - videoStartPTS tm
                    - time_Since (time_Now env (tick si)) (videoStartRTC tm))
              \<in> set (trace si2)"
    if "videoInitialized tm"
      "?pts - videoStartPTS tm > time_Since (time_Now env (tick si)) (videoStartRTC tm)"
  proof -
    from nalus_loop_appended [OF assms(5)] obtain new where "trace si2 = trace si1 @ new"
      by (auto simp: appended_def)
    with pacing_wait [OF assms(4) that] show ?thesis
      by simp
  qed
  from 1 enc 2 3 show ?thesis
    by blast
qed

theorem encode_only_nonempty_witness:
  "fst (video_payload (ex_env 11 ex_granted)
          \<lparr>videoInitialized = True, videoStartPTS = 0, videoStartRTC = 1000\<rparr>
          ((newHLSSourceInstance ''http://h/a/live.m3u8'')\<lparr>videoPID := Some 256, tick := 3\<rparr>)
          \<lparr>Data = [3], OptionalHeader = Some \<lparr>PTS = Some \<lparr>Base = 90000\<rparr>\<rparr>\<rparr>) = None
   \<and> EvWait 999998000
       \<in> set (trace (snd (snd (video_payload (ex_env 11 ex_granted)
          \<lparr>videoInitialized = True, videoStartPTS = 0, videoStartRTC = 1000\<rparr>
          ((newHLSSourceInstance ''http://h/a/live.m3u8'')\<lparr>videoPID := Some 256, tick := 3\<rparr>)
          \<lparr>Data = [3], OptionalHeader = Some \<lparr>PTS = Some \<lparr>Base = 90000\<rparr>\<rparr>\<rparr>))))
   \<and> filter is_Encode (trace (snd (snd (video_payload (ex_env 11 ex_granted)
          \<lparr>videoInitialized = True, videoStartPTS = 0, videoStartRTC = 1000\<rparr>
          ((newHLSSourceInstance ''http://h/a/live.m3u8'')\<lparr>videoPID := Some 256, tick := 3\<rparr>)
          \<lparr>Data = [3], OptionalHeader = Some \<lparr>PTS = Some \<lparr>Base = 90000\<rparr>\<rparr>\<rparr>)))) = []"
proof -
  let ?env = "ex_env 11 ex_granted"
  let ?tm = "\<lparr>videoInitialized = True, videoStartPTS = 0, videoStartRTC = 1000\<rparr>"
  let ?si = "(newHLSSourceInstance ''http://h/a/live.m3u8'')\<lparr>videoPID := Some 256, tick := 3\<rparr>"
  let ?cr = "\<lparr>Base = 90000 :: 64 word\<rparr>"
  let ?h = "\<lparr>PTS = Some ?cr\<rparr>"
  let ?pes = "\<lparr>Data = [3], OptionalHeader = Some ?h\<rparr>"
  let ?P = "pacing ?env ?tm ?si (pts_of (Base ?cr))"
  let ?N = "nalus_loop ?env (snd (snd ?P)) [] [ex_aud]"
  have d: "h264_DecodeAnnexB ?env (Data ?pes) = Inr [ex_aud]"
    by (simp add: ex_env_def ex_DecodeAnnexB_def)
  have "fst ?P = None"
    by code_simp
  then have p: "?P = (None, fst (snd ?P), snd (snd ?P))"
    by (metis prod.collapse)
  have "fst ?N = None" "fst (snd ?N) = []"
    by code_simp+
  then have n: "?N = (None, [], snd (snd ?N))"
    by (metis prod.collapse)
  have t: "pts_of (Base ?cr) - videoStartPTS ?tm = 1000000000"
    "time_Since (time_Now ?env (tick ?si)) (videoStartRTC ?tm) = 2000"
    "videoInitialized ?tm" "trace ?si = []"
    by (simp_all add: pts_of_def int64_def go_quot_def time_Since_def ex_env_def
        newHLSSourceInstance_def)
  from encode_only_nonempty [OF d _ _ p n, of ?h] t show ?thesis
    by simp
qed

subsection \<open>No packet reaches the router\<close>

lemma segmentProcess_appended:
  assumes "segmentProcess env si segmentURI = (r, si')"
  shows "appended (\<lambda>e. is_fetch_or_idle e \<or> is_video e) si si'"
proof -
  have fetch: "appended (\<lambda>e. is_fetch_or_idle e \<or> is_video e) sa sb" if "fetch_step sa sb" for sa sb
    using fetch_step_fields(10) [OF that] by (rule appended_mono) simp
  from segmentProcess_cases [OF assms] consider
    (early) "fetch_step si si'"
    | (pmt) si1 dem where "fetch_step si si1" "get_PMT si1 dem = (Return r, si')"
    | (pes) si1 dem si2 dem' tm where "fetch_step si si1" "get_PMT si1 dem = (Break dem', si2)"
        "pes_loop env timing0 si2 dem' = (r, tm, si')"
    by blast
  then show ?thesis
  proof cases
    case early
    then show ?thesis
      by (rule fetch)
  next
    case pmt
    from get_PMT_fields [OF pmt(2)] have "trace si' = trace si1"
      by auto
    with fetch [OF pmt(1)] show ?thesis
      by (simp add: appended_def)
  next
    case pes
    from get_PMT_fields [OF pes(2)] have "trace si2 = trace si1"
      by auto
    with fetch [OF pes(1)] have a: "appended (\<lambda>e. is_fetch_or_idle e \<or> is_video e) si si2"
      by (simp add: appended_def)
    from pes_loop_appended [OF pes(3)]
    have "appended (\<lambda>e. is_fetch_or_idle e \<or> is_video e) si2 si'"
      by (rule appended_mono) simp
    with a show ?thesis
      by (rule appended_trans)
  qed
qed

lemma run_loop_appended:
  "run_loop fuel env si = Some (err, si') \<Longrightarrow>
   appended (\<lambda>e. is_fetch_or_idle e \<or> is_video e) si si'"
proof (induction fuel arbitrary: si)
  case 0
  then show ?case by simp
next
  case (Suc n)
  let ?P = "\<lambda>e. is_fetch_or_idle e \<or> is_video e"
  have fetch: "appended ?P sa sb" if "fetch_step sa sb" for sa sb
    using fetch_step_fields(10) [OF that] by (rule appended_mono) simp
  obtain r1 si1 where fill:
    "(if length (queue si) \<le> 1 then queueFill env si else (None, si)) = (r1, si1)"
    by (cases "if length (queue si) \<le> 1 then queueFill env si else (None, si)") auto
  then have "fetch_step si si1"
    by (auto split: if_splits dest: queueFill_fetch)
  then have a: "appended ?P si si1"
    by (rule fetch)
  show ?case
  proof (cases r1)
    case (Some e)
    with Suc.prems fill a show ?thesis
      by simp
  next
    case None
    show ?thesis
    proof (cases "queue si1")
      case Nil
      show ?thesis
      proof (cases "ctx_Done env (tick si1)")
        case True
        with Suc.prems fill None Nil have "si' = next_tick si1"
          by simp
        with a show ?thesis
          by (simp add: appended_next_tick)
      next
        case False
        let ?si2 = "emit EvIdleWait (next_tick si1)"
        from Suc.prems fill None Nil False have "run_loop n env ?si2 = Some (err, si')"
          by simp
        then have "appended ?P ?si2 si'"
          by (rule Suc.IH)
        moreover from a have "appended ?P si ?si2"
          by (simp add: appended_emit appended_next_tick)
        ultimately show ?thesis
          by (blast intro: appended_trans)
      qed
    next
      case (Cons el rest)
      let ?si2 = "si1\<lparr>queue := rest\<rparr>"
      obtain r3 si3 where seg: "segmentProcess env ?si2 el = (r3, si3)"
        by (cases "segmentProcess env ?si2 el") auto
      from a have "appended ?P si ?si2"
        by (simp add: appended_def)
      with segmentProcess_appended [OF seg] have b: "appended ?P si si3"
        by (blast intro: appended_trans)
      show ?thesis
      proof (cases r3)
        case (Some e)
        with Suc.prems fill None Cons seg b show ?thesis
          by simp
      next
        case None3: None
        with Suc.prems fill None Cons seg have "run_loop n env si3 = Some (err, si')"
          by simp
        then have "appended ?P si3 si'"
          by (rule Suc.IH)
        with b show ?thesis
          by (rule appended_trans)
      qed
    qed
  qed
qed

lemma run_never_hands_off:
  assumes "run fuel env si = Some (err, si')"
  shows "filter is_OnFrame (trace si') = filter is_OnFrame (trace si)"
proof -
  from assms obtain si1 where loop: "run_loop fuel env si = Some (err, si1)"
    and si': "si' = run_deferred si1"
    by (auto simp: run_def split: option.splits)
  have "\<not> is_OnFrame e" if "is_fetch_or_idle e \<or> is_video e" for e
    using that by (cases e) simp_all
  with run_loop_appended [OF loop]
  have "filter is_OnFrame (trace si1) = filter is_OnFrame (trace si)"
    by (rule appended_filter)
  with si' show ?thesis
    by (simp add: run_deferred_def)
qed

text \<open>
  C1 on the code. One master playlist of two variants, the better one with the one
  segment \<open>seg0.ts\<close> that holds SPS, PPS and an IDR unit; the source is closed after the
  segment. The attempt makes one readiness call, encodes the IDR unit once and prints the
  packets; no packet is handed to the router, and the attempt ends with one "not ready"
  call.
\<close>

theorem packets_not_handed_to_router:
  "outcome (run 5 (ex_env 5 ex_granted) (newHLSSourceInstance ''http://h/a/master.m3u8''))
     = Some (ErrLib ''context canceled'',
         [EvHTTPGet (ex_url ''http'' ''h'' ''/a/master.m3u8''),
          EvHTTPGet (ex_url ''http'' ''h'' ''/a/hi.m3u8''),
          EvHTTPGet (ex_url ''http'' ''h'' ''/a/seg0.ts''),
          EvPrintPTS 0, EvPacing 0 3000 0 1000,
          EvSetReady [Track 0] ex_granted,
          EvEncode [ex_idr] 0, EvPrintTODO [ex_idr],
          EvHTTPGet (ex_url ''http'' ''h'' ''/a/hi.m3u8''),
          EvSetNotReady])
   \<and> filter is_OnFrame
        [EvHTTPGet (ex_url ''http'' ''h'' ''/a/master.m3u8''),
         EvHTTPGet (ex_url ''http'' ''h'' ''/a/hi.m3u8''),
         EvHTTPGet (ex_url ''http'' ''h'' ''/a/seg0.ts''),
         EvPrintPTS 0, EvPacing 0 3000 0 1000,
         EvSetReady [Track 0] ex_granted,
         EvEncode [ex_idr] 0, EvPrintTODO [ex_idr],
         EvHTTPGet (ex_url ''http'' ''h'' ''/a/hi.m3u8''),
         EvSetNotReady] = []"
proof -
  have "outcome (run 5 (ex_env 5 ex_granted) (newHLSSourceInstance ''http://h/a/master.m3u8''))
     = Some (ErrLib ''context canceled'',
         [EvHTTPGet (ex_url ''http'' ''h'' ''/a/master.m3u8''),
          EvHTTPGet (ex_url ''http'' ''h'' ''/a/hi.m3u8''),
          EvHTTPGet (ex_url ''http'' ''h'' ''/a/seg0.ts''),
          EvPrintPTS 0, EvPacing 0 3000 0 1000,
          EvSetReady [Track 0] ex_granted,
          EvEncode [ex_idr] 0, EvPrintTODO [ex_idr],
          EvHTTPGet (ex_url ''http'' ''h'' ''/a/hi.m3u8''),
          EvSetNotReady])"
    by code_simp
  then show ?thesis
    by simp
qed

end
